theory Spec2Isabelle
  imports Complex_Main
begin

unbundle bit_operations_syntax

section \<open>JavaScript numbers and strings\<close>

text \<open>
  The plugin computes with JavaScript numbers. A number is either finite or one of
  \<open>NaN\<close>, \<open>Infinity\<close>, \<open>-Infinity\<close>; the finite ones are modelled as reals, so the
  rounding error of IEEE double arithmetic is not part of the model. Where the code is
  shown to leave the range it promises, the input is a binary fraction (359.96875) on
  which every step is exact in double arithmetic as well.

  A JavaScript string is a sequence of UTF-16 code units. The text of a sentence and of a
  talker, whose code units the plugin examines, is a list of code units. A code unit is a
  number, below 65536 in every string of the program; what is proved of every list of
  numbers holds of every string. A string literal of the source is written \<open>lit ''...''\<close>.
  The names of the commands and the paths of the provider, which the plugin only compares
  and concatenates, are strings of HOL.
\<close>

type_synonym codeunit = nat

type_synonym jsstring = "codeunit list"

definition lit :: "string \<Rightarrow> jsstring" where
  "lit s = map of_char s"

datatype jsnumber = Finite real | NaN | PosInfinity | NegInfinity

text \<open>\<open>Number.isFinite\<close>\<close>

fun isFinite :: "jsnumber \<Rightarrow> bool" where
  "isFinite (Finite r) = True"
| "isFinite NaN = False"
| "isFinite PosInfinity = False"
| "isFinite NegInfinity = False"

text \<open>\<open>Math.round\<close> rounds to the nearest integer, a tie towards plus infinity.\<close>

definition Math_round :: "real \<Rightarrow> real" where
  "Math_round x = of_int \<lfloor>x + 1 / 2\<rfloor>"

text \<open>
  The remainder operator \<open>%\<close> truncates the quotient towards zero, so the result has the
  sign of the dividend.
\<close>

definition js_trunc :: "real \<Rightarrow> int" where
  "js_trunc x = (if 0 \<le> x then \<lfloor>x\<rfloor> else - \<lfloor>- x\<rfloor>)"

definition js_rem :: "real \<Rightarrow> real \<Rightarrow> real" where
  "js_rem a b = a - b * of_int (js_trunc (a / b))"

text \<open>\<open>charCodeAt(i)\<close> for an index below the length, as the loop of \<open>addChecksum\<close> calls it.\<close>

definition charCodeAt :: "jsstring \<Rightarrow> nat \<Rightarrow> nat" where
  "charCodeAt s i = s ! i"

text \<open>
  \<open>String.prototype.toUpperCase\<close> applies the case mapping of Unicode, a table of the
  engine and not of the repository, which can turn one code unit into several (U+00DF
  becomes \<open>SS\<close>). Where the plugin upper-cases text that it is given, in
  \<open>sanitizeTalker\<close>, the mapping is a parameter of the model. On a string of ASCII code
  units the mapping is the one below: \<open>a-z\<close> become \<open>A-Z\<close> and nothing else changes.
  \<open>addChecksum\<close> upper-cases the digits of \<open>toString(16)\<close>, which are such a string.
\<close>

definition toUpperCase_ascii_unit :: "codeunit \<Rightarrow> codeunit" where
  "toUpperCase_ascii_unit u = (if 97 \<le> u \<and> u \<le> 122 then u - 32 else u)"

definition toUpperCase_ascii :: "jsstring \<Rightarrow> jsstring" where
  "toUpperCase_ascii s = map toUpperCase_ascii_unit s"

text \<open>The character class \<open>[A-Z0-9]\<close>.\<close>

definition is_AZ09 :: "codeunit \<Rightarrow> bool" where
  "is_AZ09 u = ((65 \<le> u \<and> u \<le> 90) \<or> (48 \<le> u \<and> u \<le> 57))"

text \<open>\<open>padStart(n, c)\<close> with a fill string \<open>c\<close> of one code unit.\<close>

definition padStart :: "nat \<Rightarrow> codeunit \<Rightarrow> jsstring \<Rightarrow> jsstring" where
  "padStart n c s = replicate (n - length s) c @ s"

text \<open>
  The white space and the line terminators that \<open>trim\<close> removes: tab, line feed, vertical
  tab, form feed, carriage return, space, no-break space, the space separators of Unicode,
  the line and paragraph separators and the byte order mark.
\<close>

definition is_space :: "codeunit \<Rightarrow> bool" where
  "is_space u =
     ((9 \<le> u \<and> u \<le> 13) \<or> u = 32 \<or> u = 160 \<or> u = 5760 \<or> (8192 \<le> u \<and> u \<le> 8202)
      \<or> u = 8232 \<or> u = 8233 \<or> u = 8239 \<or> u = 8287 \<or> u = 12288 \<or> u = 65279)"

definition trim :: "jsstring \<Rightarrow> jsstring" where
  "trim s = rev (dropWhile is_space (rev (dropWhile is_space s)))"

text \<open>
  \<open>Number.prototype.toString(radix)\<close> on a non-negative integer: the digits
  \<open>0-9a-z\<close>, most significant first, no leading zero.
\<close>

definition digit_char :: "nat \<Rightarrow> codeunit" where
  "digit_char d = (if d < 10 then of_char (CHR ''0'') + d else of_char (CHR ''a'') + (d - 10))"

function toString_radix :: "nat \<Rightarrow> nat \<Rightarrow> jsstring" where
  "toString_radix b n =
     (if b < 2 \<or> n < b then [digit_char n]
      else toString_radix b (n div b) @ [digit_char (n mod b)])"
  by pat_completeness auto
termination
  by (relation "measure (\<lambda>(b, n). n)") auto

declare toString_radix.simps [simp del]

text \<open>
  \<open>Number.prototype.toFixed(f)\<close>, for a finite number below \<open>10^21\<close> (the callers
  pass at most 360 and 9.99): the integer \<open>n\<close> nearest to \<open>x * 10^f\<close>, the larger one
  on a tie, printed with a decimal point before its last \<open>f\<close> digits.
\<close>

definition toFixed :: "nat \<Rightarrow> real \<Rightarrow> jsstring" where
  "toFixed f x0 =
     (let s = (if x0 < 0 then lit ''-'' else []);
          x = (if x0 < 0 then - x0 else x0);
          n = nat \<lfloor>x * 10 ^ f + 1 / 2\<rfloor>;
          m = (if n = 0 then lit ''0'' else toString_radix 10 n);
          m = (if f \<noteq> 0 then
                 (let k = length m;
                      m = (if k \<le> f then replicate (f + 1 - k) (of_char (CHR ''0'')) @ m else m);
                      k = (if k \<le> f then f + 1 else k)
                  in take (k - f) m @ lit ''.'' @ drop (k - f) m)
               else m)
      in s @ m)"

section \<open>Angles\<close>

definition radToDeg :: "real \<Rightarrow> real" where
  "radToDeg r = (r * 180) / pi"

definition degToRad :: "real \<Rightarrow> real" where
  "degToRad d = (d * pi) / 180"

definition round2 :: "real \<Rightarrow> real" where
  "round2 n = Math_round (n * 100) / 100"

definition wrap360 :: "real \<Rightarrow> real" where
  "wrap360 deg =
     (let d = js_rem deg 360;
          d = (if d < 0 then d + 360 else d)
      in Math_round (d * 10) / 10)"

section \<open>The telemetry provider\<close>

text \<open>
  \<open>app.getSelfPath(path)\<close> yields a node or nothing. The value of a node is absent
  (\<open>null\<close> or \<open>undefined\<close>), a scalar, represented by what \<open>Number\<close> makes of it, or an
  object, represented by what \<open>Number\<close> makes of its \<open>latitude\<close> and \<open>longitude\<close>.
  The timestamp of a node is absent or a string, represented by what \<open>Date.parse\<close>
  makes of it.
\<close>

datatype jsvalue = Scalar jsnumber | Object jsnumber jsnumber

record node =
  nvalue :: "jsvalue option"
  ntimestamp :: "jsnumber option"

type_synonym provider = "string \<Rightarrow> node option"

text \<open>\<open>Number(v)\<close> for a value that is not \<open>null\<close>: an object is not a number.\<close>

fun Number :: "jsvalue \<Rightarrow> jsnumber" where
  "Number (Scalar n) = n"
| "Number (Object la lo) = NaN"

definition getValue :: "provider \<Rightarrow> string \<Rightarrow> jsvalue option" where
  "getValue app path = (case app path of None \<Rightarrow> None | Some nd \<Rightarrow> nvalue nd)"

definition getTimestamp :: "provider \<Rightarrow> string \<Rightarrow> jsnumber option" where
  "getTimestamp app path = (case app path of None \<Rightarrow> None | Some nd \<Rightarrow> ntimestamp nd)"

record latlon =
  lat :: real
  lon :: real

record timed_latlon = latlon +
  timestampMs :: "real option"

definition readPosition :: "provider \<Rightarrow> string \<Rightarrow> timed_latlon option" where
  "readPosition app path =
     (case getValue app path of
        None \<Rightarrow> None
      | Some (Scalar n) \<Rightarrow> None
      | Some (Object la lo) \<Rightarrow>
          (case (la, lo) of
             (Finite la', Finite lo') \<Rightarrow>
               Some \<lparr>lat = la', lon = lo',
                     timestampMs = (case getTimestamp app path of
                                      Some (Finite t) \<Rightarrow> Some t
                                    | _ \<Rightarrow> None)\<rparr>
           | _ \<Rightarrow> None))"

text \<open>Read an angle and return degrees. Accepts radians or degrees.\<close>

definition readAngleDeg :: "provider \<Rightarrow> string \<Rightarrow> real option" where
  "readAngleDeg app path =
     (case getValue app path of
        None \<Rightarrow> None
      | Some v \<Rightarrow>
          (case Number v of
             Finite num \<Rightarrow>
               (let deg = (if \<bar>num\<bar> \<le> pi * 2 + 0.5 then radToDeg num else num)
                in Some (wrap360 deg))
           | _ \<Rightarrow> None))"

section \<open>Best-available status selection\<close>

record paths =
  path_position :: string
  path_cogMag :: string
  path_cogTrue :: string
  path_hdgMag :: string
  path_hdgTrue :: string
  path_variation :: string

definition default_paths :: paths where
  "default_paths =
     \<lparr>path_position = ''navigation.position'',
      path_cogMag = ''navigation.courseOverGroundMagnetic'',
      path_cogTrue = ''navigation.courseOverGroundTrue'',
      path_hdgMag = ''navigation.headingMagnetic'',
      path_hdgTrue = ''navigation.headingTrue'',
      path_variation = ''navigation.magneticVariation''\<rparr>"

record raw_status =
  raw_position :: "timed_latlon option"
  raw_positionAgeMs :: "real option"
  raw_variationDeg :: "real option"
  raw_cogMagDeg :: "real option"
  raw_cogTrueDeg :: "real option"
  raw_hdgMagDeg :: "real option"
  raw_hdgTrueDeg :: "real option"

record best_status =
  position :: "latlon option"
  positionFresh :: bool
  variationDeg :: "real option"
  cogMagDeg :: "real option"
  cogMagSource :: "string option"
  headingMagDeg :: "real option"
  headingMagSource :: "string option"

text \<open>The field \<open>nowIso\<close> is kept as the time in milliseconds it is printed from.\<close>

record status =
  nowIso :: real
  status_paths :: paths
  raw :: raw_status
  best :: best_status

definition computeStatus :: "provider \<Rightarrow> real \<Rightarrow> paths \<Rightarrow> real \<Rightarrow> status" where
  "computeStatus app now P staleSeconds =
     (let pos = readPosition app (path_position P);
          posFresh = (case pos of
                        None \<Rightarrow> False
                      | Some p \<Rightarrow> (case timestampMs p of
                                     None \<Rightarrow> False
                                   | Some ts \<Rightarrow> now - ts \<le> staleSeconds * 1000));
          variation = readAngleDeg app (path_variation P);
          cogMag = readAngleDeg app (path_cogMag P);
          cogTrue = readAngleDeg app (path_cogTrue P);
          hdgMag = readAngleDeg app (path_hdgMag P);
          hdgTrue = readAngleDeg app (path_hdgTrue P);
          bestCogMagDeg = cogMag;
          cogSource = (if cogMag \<noteq> None then Some (path_cogMag P) else None);
          (bestCogMagDeg, cogSource) =
            (if bestCogMagDeg = None \<and> cogTrue \<noteq> None \<and> variation \<noteq> None
             then (Some (wrap360 (the cogTrue - the variation)),
                   Some (path_cogTrue P @ '' + variation''))
             else (bestCogMagDeg, cogSource));
          (bestCogMagDeg, cogSource) =
            (if bestCogMagDeg = None \<and> hdgMag \<noteq> None
             then (hdgMag, Some (path_hdgMag P @ '' (fallback)''))
             else (bestCogMagDeg, cogSource));
          bestHdgMagDeg = hdgMag;
          hdgSource = (if hdgMag \<noteq> None then Some (path_hdgMag P) else None);
          (bestHdgMagDeg, hdgSource) =
            (if bestHdgMagDeg = None \<and> hdgTrue \<noteq> None \<and> variation \<noteq> None
             then (Some (wrap360 (the hdgTrue - the variation)),
                   Some (path_hdgTrue P @ '' + variation''))
             else (bestHdgMagDeg, hdgSource))
      in \<lparr>nowIso = now,
          status_paths = P,
          raw = \<lparr>raw_position = pos,
                 raw_positionAgeMs =
                   (case pos of
                      None \<Rightarrow> None
                    | Some p \<Rightarrow> (case timestampMs p of
                                   None \<Rightarrow> None
                                 | Some ts \<Rightarrow> Some (now - ts))),
                 raw_variationDeg = variation,
                 raw_cogMagDeg = cogMag,
                 raw_cogTrueDeg = cogTrue,
                 raw_hdgMagDeg = hdgMag,
                 raw_hdgTrueDeg = hdgTrue\<rparr>,
          best = \<lparr>position = (case pos of
                                None \<Rightarrow> None
                              | Some p \<Rightarrow> Some \<lparr>lat = lat p, lon = lon p\<rparr>),
                  positionFresh = posFresh,
                  variationDeg = variation,
                  cogMagDeg = bestCogMagDeg,
                  cogMagSource = cogSource,
                  headingMagDeg = bestHdgMagDeg,
                  headingMagSource = hdgSource\<rparr>\<rparr>)"

section \<open>Track math: cross-track error to a rhumb line\<close>

datatype side = L | R

record xte =
  nm :: real
  side :: side

text \<open>
  The local constant \<open>xte_m\<close> of \<open>computeXteNmAndSide\<close>: the signed metres. The program
  evaluates the expression in double arithmetic with the engine's \<open>Math.sin\<close> and
  \<open>Math.cos\<close>; here it is evaluated over the reals. The two differ in the last bits, and
  so in the sign where the exact value is zero: from (0, 0) to (0.001, 0) on the bearing 270
  the value is 0 here and about \<open>-2E-14\<close> in doubles. The definitions say which
  quantities the sentence of the track hold is built from; the value and the side that the
  program computes in double arithmetic are not determined by them.
\<close>

definition xte_m :: "latlon \<Rightarrow> latlon \<Rightarrow> real \<Rightarrow> real" where
  "xte_m start cur bearingMagDeg =
     (let lat0 = degToRad (lat start);
          dLat = degToRad (lat cur - lat start);
          dLon = degToRad (lon cur - lon start);
          R = 6371000;
          dN = dLat * R;
          dE = dLon * R * cos lat0;
          theta = degToRad bearingMagDeg
      in - sin theta * dE + cos theta * dN)"

definition computeXteNmAndSide :: "latlon \<Rightarrow> latlon \<Rightarrow> real \<Rightarrow> xte" where
  "computeXteNmAndSide start cur bearingMagDeg =
     (let x = xte_m start cur bearingMagDeg;
          n = min (\<bar>x\<bar> / 1852) 9.99;
          sd = (if x \<ge> 0 then R else L)
      in \<lparr>nm = round2 n, side = sd\<rparr>)"

section \<open>NMEA builders\<close>

definition fmtDeg :: "real \<Rightarrow> jsstring" where
  "fmtDeg deg = padStart 5 (of_char (CHR ''0'')) (toFixed 1 (wrap360 deg))"

definition fmtXteNm :: "real \<Rightarrow> jsstring" where
  "fmtXteNm x = toFixed 2 (max 0 (min 9.99 x))"

text \<open>The loop of \<open>addChecksum\<close>: from index \<open>i\<close> on, each code unit is xor-ed into \<open>c\<close>.\<close>

function checksum_loop :: "jsstring \<Rightarrow> nat \<Rightarrow> nat \<Rightarrow> nat" where
  "checksum_loop sentence i c =
     (if i < length sentence
      then checksum_loop sentence (i + 1) (c XOR charCodeAt sentence i)
      else c)"
  by pat_completeness auto
termination
  by (relation "measure (\<lambda>(sentence, i, c). length sentence - i)") auto

declare checksum_loop.simps [simp del]

definition addChecksum :: "jsstring \<Rightarrow> jsstring" where
  "addChecksum sentence =
     (let c = checksum_loop sentence 1 0;
          hex = padStart 2 (of_char (CHR ''0'')) (toUpperCase_ascii (toString_radix 16 c))
      in sentence @ lit ''*'' @ hex @ lit [CHR 0x0D, CHR 0x0A])"

text \<open>\<open>x || ''\<close> for a string that may be absent.\<close>

definition or_empty :: "jsstring option \<Rightarrow> jsstring" where
  "or_empty x = (case x of None \<Rightarrow> [] | Some s \<Rightarrow> s)"

definition buildBOD ::
    "jsstring \<Rightarrow> real option \<Rightarrow> real option \<Rightarrow> jsstring option \<Rightarrow> jsstring option \<Rightarrow> jsstring" where
  "buildBOD tk trueDeg magDeg dest orig =
     (let tField = (case trueDeg of Some d \<Rightarrow> fmtDeg d | None \<Rightarrow> []);
          mField = (case magDeg of Some d \<Rightarrow> fmtDeg d | None \<Rightarrow> []);
          body = tk @ lit ''BOD,'' @ tField @ lit '',T,'' @ mField @ lit '',M,'' @ or_empty dest
                 @ lit '','' @ or_empty orig
      in addChecksum (lit ''$'' @ body))"

definition buildAPB ::
    "jsstring \<Rightarrow> real \<Rightarrow> side \<Rightarrow> real option \<Rightarrow> real option \<Rightarrow> jsstring option \<Rightarrow> jsstring" where
  "buildAPB tk xteNm xteSide htsMagDeg htsTrueDeg destId =
     (let x = fmtXteNm xteNm;
          sd = (if xteSide = L then lit ''L'' else lit ''R'');
          htsT = (case htsTrueDeg of Some d \<Rightarrow> fmtDeg d | None \<Rightarrow> []);
          htsM = (case htsMagDeg of Some d \<Rightarrow> fmtDeg d | None \<Rightarrow> []);
          body = tk @ lit ''APB,A,A,'' @ x @ lit '','' @ sd @ lit '',N,A,A,'' @ htsT @ lit '',T,''
                 @ htsM @ lit '',M,'' @ or_empty destId @ lit '',,,''
      in addChecksum (lit ''$'' @ body))"

text \<open>
  \<open>sanitizeTalker(t)\<close>; the argument is absent for \<open>null\<close> and \<open>undefined\<close>, and the empty
  string is as falsy as they are. The first argument is the engine's \<open>toUpperCase\<close>.
\<close>

definition sanitizeTalker :: "(jsstring \<Rightarrow> jsstring) \<Rightarrow> jsstring option \<Rightarrow> jsstring" where
  "sanitizeTalker toUpperCase t =
     (let t' = (case t of None \<Rightarrow> lit ''II'' | Some s \<Rightarrow> if s = [] then lit ''II'' else s);
          up = filter is_AZ09 (toUpperCase t')
      in if length up \<ge> 2 then take 2 up else lit ''II'')"

section \<open>Plugin runtime state\<close>

datatype mode = BOD | APB

record state =
  enabled :: bool
  mode :: mode
  targetMagDeg :: "real option"
  trackActive :: bool
  trackStart :: "latlon option"
  trackBearingMagDeg :: "real option"
  trackBearingTrueDeg :: "real option"
  trackName :: jsstring
  lastSentence :: "jsstring option"
  lastEmitTs :: "real option"
  lastStatus :: "status option"

definition initial_state :: state where
  "initial_state =
     \<lparr>enabled = False, mode = BOD, targetMagDeg = None,
      trackActive = False, trackStart = None, trackBearingMagDeg = None,
      trackBearingTrueDeg = None, trackName = lit ''RHUMB'',
      lastSentence = None, lastEmitTs = None, lastStatus = None\<rparr>"

text \<open>What \<open>start\<close> fixes for the lifetime of the plugin.\<close>

record config =
  talker :: jsstring
  gpsStaleSeconds :: real
  PATHS :: paths

section \<open>The command handler\<close>

text \<open>
  The handler of \<open>POST /cmd\<close>. The command \<open>c\<close> is compared with string literals, one
  \<open>if\<close> after the other; \<open>n\<close> is \<open>Number(v)\<close> of the request's value. The state after
  the handler is returned; the response repeats its fields.
\<close>

definition cmd :: "config \<Rightarrow> provider \<Rightarrow> real \<Rightarrow> string \<Rightarrow> jsnumber \<Rightarrow> state \<Rightarrow> state" where
  "cmd cfg app now c n s =
     (let s = (if c = ''enable'' then s\<lparr>enabled := True\<rparr> else s);
          s = (if c = ''disable'' then s\<lparr>enabled := False\<rparr> else s);
          s = (if c = ''mode_bod'' then s\<lparr>mode := BOD\<rparr> else s);
          s = (if c = ''mode_apb'' then s\<lparr>mode := APB\<rparr> else s);
          st = computeStatus app now (PATHS cfg) (gpsStaleSeconds cfg);
          curHeadingMag = headingMagDeg (best st);
          curCogMag = cogMagDeg (best st);
          curPos = position (best st);
          s = (if c = ''hold_heading'' then
                 (case curHeadingMag of
                    Some h \<Rightarrow> s\<lparr>targetMagDeg := Some h, mode := BOD, trackActive := False\<rparr>
                  | None \<Rightarrow> s)
               else s);
          s = (if c = ''set_heading'' then
                 (case n of
                    Finite r \<Rightarrow>
                      s\<lparr>targetMagDeg := Some (wrap360 r), mode := BOD, trackActive := False\<rparr>
                  | _ \<Rightarrow> s)
               else s);
          s = (if c = ''clear_heading'' then s\<lparr>targetMagDeg := None\<rparr> else s);
          s = (if c = ''hold_rhumb'' then
                 (case curPos of
                    None \<Rightarrow> s
                  | Some p \<Rightarrow>
                      if positionFresh (best st) then
                        (case (if curCogMag \<noteq> None then curCogMag else curHeadingMag) of
                           None \<Rightarrow> s
                         | Some bearingMag \<Rightarrow>
                             (let b = wrap360 bearingMag
                              in s\<lparr>trackStart := Some \<lparr>lat = lat p, lon = lon p\<rparr>,
                                    trackBearingMagDeg := Some b,
                                    trackBearingTrueDeg :=
                                      (case variationDeg (best st) of
                                         Some v \<Rightarrow> Some (wrap360 (b + v))
                                       | None \<Rightarrow> None),
                                    trackActive := True,
                                    mode := APB,
                                    targetMagDeg := None\<rparr>))
                      else s)
               else s);
          s = (if c = ''stop_track'' then
                 s\<lparr>trackActive := False, trackStart := None,
                   trackBearingMagDeg := None, trackBearingTrueDeg := None\<rparr>
               else s);
          delta = (if c = ''p1'' then 1 else if c = ''m1'' then - 1
                   else if c = ''p10'' then 10 else if c = ''m10'' then - 10 else (0 :: real));
          s = (if delta \<noteq> 0 then
                 (let s = (if mode s = BOD then
                             (case targetMagDeg s of
                                Some t \<Rightarrow> s\<lparr>targetMagDeg := Some (wrap360 (t + delta))\<rparr>
                              | None \<Rightarrow> s)
                           else s);
                      s = (if mode s = APB \<and> trackActive s then
                             (case trackBearingMagDeg s of
                                Some tb \<Rightarrow>
                                  (let b = wrap360 (tb + delta)
                                   in s\<lparr>trackBearingMagDeg := Some b,
                                         trackBearingTrueDeg :=
                                           (case variationDeg (best st) of
                                              Some v \<Rightarrow> Some (wrap360 (b + v))
                                            | None \<Rightarrow> None)\<rparr>)
                              | None \<Rightarrow> s)
                           else s)
                  in s)
               else s)
      in s)"

text \<open>
  \<open>start\<close> sets \<open>enabled\<close> and \<open>mode\<close> from the options and leaves the other variables of
  the module as they are.
\<close>

definition start :: "bool \<Rightarrow> string \<Rightarrow> state \<Rightarrow> state" where
  "start opt_enabled opt_defaultMode s =
     s\<lparr>enabled := opt_enabled, mode := (if opt_defaultMode = ''APB'' then APB else BOD)\<rparr>"

section \<open>The output loop\<close>

text \<open>
  \<open>emit\<close> records the sentence and hands it to the sink: the second component is what
  \<open>app.emit\<close> receives. \<open>lastEmitTs\<close> is kept as the time in milliseconds.
\<close>

definition emit :: "real \<Rightarrow> jsstring \<Rightarrow> state \<Rightarrow> state \<times> jsstring option" where
  "emit now sentence s =
     (s\<lparr>lastSentence := Some (trim sentence), lastEmitTs := Some now\<rparr>, Some sentence)"

text \<open>One run of the timer's callback; \<open>None\<close> when it returns without calling \<open>emit\<close>.\<close>

definition tick :: "config \<Rightarrow> provider \<Rightarrow> real \<Rightarrow> state \<Rightarrow> state \<times> jsstring option" where
  "tick cfg app now s0 =
     (let st = computeStatus app now (PATHS cfg) (gpsStaleSeconds cfg);
          s = s0\<lparr>lastStatus := Some st\<rparr>
      in if \<not> enabled s then (s, None)
         else
           (case mode s of
              BOD \<Rightarrow>
                (case targetMagDeg s of
                   None \<Rightarrow> (s, None)
                 | Some tgt \<Rightarrow>
                     (let trueDeg = (case variationDeg (best st) of
                                       Some v \<Rightarrow> Some (wrap360 (tgt + v))
                                     | None \<Rightarrow> None);
                          sentence = buildBOD (talker cfg) trueDeg (Some tgt)
                                       (Some (lit ''DEST'')) (Some (lit ''ORIG''))
                      in emit now sentence s))
            | APB \<Rightarrow>
                (if \<not> trackActive s \<or> trackStart s = None \<or> trackBearingMagDeg s = None
                 then (s, None)
                 else if \<not> positionFresh (best st) \<or> position (best st) = None
                 then (s, None)
                 else
                   (let cur = the (position (best st));
                        x = computeXteNmAndSide (the (trackStart s)) cur
                              (the (trackBearingMagDeg s));
                        htsMag = trackBearingMagDeg s;
                        htsTrue = (case variationDeg (best st) of
                                     Some v \<Rightarrow> Some (wrap360 (the (trackBearingMagDeg s) + v))
                                   | None \<Rightarrow> None);
                        sentence = buildAPB (talker cfg) (nm x) (side x) htsMag htsTrue
                                     (Some (trackName s))
                    in emit now sentence s))))"

section \<open>Runs\<close>

text \<open>
  What happens to the state: the plugin is started, a command arrives, the timer fires.
  Each event carries the provider and the clock it finds.
\<close>

datatype event =
    Start bool string
  | Cmd provider real string jsnumber
  | Tick provider real

fun step :: "config \<Rightarrow> event \<Rightarrow> state \<Rightarrow> state \<times> jsstring option" where
  "step cfg (Start e m) s = (start e m s, None)"
| "step cfg (Cmd app now c n) s = (cmd cfg app now c n s, None)"
| "step cfg (Tick app now) s = tick cfg app now s"

fun run :: "config \<Rightarrow> event list \<Rightarrow> state \<Rightarrow> state" where
  "run cfg [] s = s"
| "run cfg (e # es) s = run cfg es (fst (step cfg e s))"

inductive reachable :: "config \<Rightarrow> state \<Rightarrow> bool" for cfg :: config where
  reachable_initial: "reachable cfg initial_state"
| reachable_step: "reachable cfg s \<Longrightarrow> reachable cfg (fst (step cfg e s))"

text \<open>A sequence of commands, each with the provider, the clock and the value it comes with.\<close>

fun run_cmds :: "config \<Rightarrow> (provider \<times> real \<times> string \<times> jsnumber) list \<Rightarrow> state \<Rightarrow> state" where
  "run_cmds cfg [] s = s"
| "run_cmds cfg ((app, now, c, n) # cs) s = run_cmds cfg cs (cmd cfg app now c n s)"

section \<open>The heading-only plugin of index.js\<close>

text \<open>
  \<open>index.js\<close> is the plugin without track hold. Its helpers \<open>wrap360\<close>, \<open>sanitizeTalker\<close>,
  \<open>fmtDeg\<close>, \<open>buildBOD\<close> and \<open>addChecksum\<close> are those above; its state variables carry
  the prefix \<open>b_\<close> here.
\<close>

text \<open>Get angle (radians or degrees) from a path; return radians.\<close>

definition getAngleRad :: "provider \<Rightarrow> string \<Rightarrow> real option" where
  "getAngleRad app path =
     (case getValue app path of
        None \<Rightarrow> None
      | Some v \<Rightarrow>
          (case Number v of
             Finite num \<Rightarrow> Some (if \<bar>num\<bar> \<le> pi * 2 + 0.5 then num else degToRad num)
           | _ \<Rightarrow> None))"

definition getHeadingMagDeg :: "provider \<Rightarrow> string \<Rightarrow> real option" where
  "getHeadingMagDeg app path =
     (case getAngleRad app path of
        None \<Rightarrow> None
      | Some rad \<Rightarrow> Some (wrap360 (radToDeg rad)))"

record bod_state =
  b_enabled :: bool
  b_targetMagDeg :: "real option"
  b_lastSentence :: "jsstring option"
  b_lastEmitTs :: "real option"

record bod_config =
  b_talker :: jsstring
  headingPath :: string
  variationPath :: string
  destinationId :: jsstring
  originId :: jsstring

definition bod_cmd :: "bod_config \<Rightarrow> provider \<Rightarrow> string \<Rightarrow> jsnumber \<Rightarrow> bod_state \<Rightarrow> bod_state" where
  "bod_cmd cfg app c n s =
     (let s = (if c = ''enable'' then s\<lparr>b_enabled := True\<rparr> else s);
          s = (if c = ''disable'' then s\<lparr>b_enabled := False\<rparr> else s);
          s = (if c = ''clear'' then s\<lparr>b_targetMagDeg := None\<rparr> else s);
          cur = getHeadingMagDeg app (headingPath cfg);
          s = (if c = ''hold'' \<and> cur \<noteq> None then s\<lparr>b_targetMagDeg := cur\<rparr> else s);
          s = (if c = ''p1'' \<and> b_targetMagDeg s \<noteq> None
               then s\<lparr>b_targetMagDeg := Some (wrap360 (the (b_targetMagDeg s) + 1))\<rparr> else s);
          s = (if c = ''m1'' \<and> b_targetMagDeg s \<noteq> None
               then s\<lparr>b_targetMagDeg := Some (wrap360 (the (b_targetMagDeg s) - 1))\<rparr> else s);
          s = (if c = ''p10'' \<and> b_targetMagDeg s \<noteq> None
               then s\<lparr>b_targetMagDeg := Some (wrap360 (the (b_targetMagDeg s) + 10))\<rparr> else s);
          s = (if c = ''m10'' \<and> b_targetMagDeg s \<noteq> None
               then s\<lparr>b_targetMagDeg := Some (wrap360 (the (b_targetMagDeg s) - 10))\<rparr> else s);
          s = (if c = ''set'' then
                 (case n of
                    Finite r \<Rightarrow> s\<lparr>b_targetMagDeg := Some (wrap360 r)\<rparr>
                  | _ \<Rightarrow> s)
               else s)
      in s)"

definition bod_tick :: "bod_config \<Rightarrow> provider \<Rightarrow> real \<Rightarrow> bod_state \<Rightarrow> bod_state \<times> jsstring option" where
  "bod_tick cfg app now s =
     (if \<not> b_enabled s then (s, None)
      else
        (case b_targetMagDeg s of
           None \<Rightarrow> (s, None)
         | Some tgt \<Rightarrow>
             (let variationRad = getAngleRad app (variationPath cfg);
                  targetTrueDeg = (case variationRad of
                                     Some v \<Rightarrow> Some (wrap360 (tgt + radToDeg v))
                                   | None \<Rightarrow> None);
                  sentence = buildBOD (b_talker cfg) targetTrueDeg (Some tgt)
                               (Some (destinationId cfg)) (Some (originId cfg))
              in (s\<lparr>b_lastSentence := Some (trim sentence), b_lastEmitTs := Some now\<rparr>,
                  Some sentence))))"

section \<open>Reference definitions\<close>

text \<open>The best-available part of the status that a command or a tick computes.\<close>

abbreviation fused :: "config \<Rightarrow> provider \<Rightarrow> real \<Rightarrow> best_status" where
  "fused cfg app now \<equiv> best (computeStatus app now (PATHS cfg) (gpsStaleSeconds cfg))"


text \<open>The angle of \<open>wrap360\<close> before it is rounded.\<close>

definition wrapped :: "real \<Rightarrow> real" where
  "wrapped deg = (let d = js_rem deg 360 in if d < 0 then d + 360 else d)"

text \<open>
  The fallback order of the course over ground, as the specification words it: the
  direct magnetic value, else true minus variation, else the magnetic heading, else
  nothing; each with the kind of its source.
\<close>

datatype cog_source = Direct | DerivedFromTrue | FallbackHeading | NoSource

definition fuse_cogMag ::
    "real option \<Rightarrow> real option \<Rightarrow> real option \<Rightarrow> real option \<Rightarrow> real option \<times> cog_source" where
  "fuse_cogMag cogMag cogTrue variation hdgMag =
     (case cogMag of
        Some m \<Rightarrow> (Some m, Direct)
      | None \<Rightarrow>
          (case (cogTrue, variation) of
             (Some t, Some v) \<Rightarrow> (Some (wrap360 (t - v)), DerivedFromTrue)
           | _ \<Rightarrow>
               (case hdgMag of
                  Some h \<Rightarrow> (Some h, FallbackHeading)
                | None \<Rightarrow> (None, NoSource))))"

text \<open>The tag that \<open>computeStatus\<close> writes for each kind of source.\<close>

fun cog_source_tag :: "paths \<Rightarrow> cog_source \<Rightarrow> string option" where
  "cog_source_tag P Direct = Some (path_cogMag P)"
| "cog_source_tag P DerivedFromTrue = Some (path_cogTrue P @ '' + variation'')"
| "cog_source_tag P FallbackHeading = Some (path_hdgMag P @ '' (fallback)'')"
| "cog_source_tag P NoSource = None"

text \<open>
  The checksum of NMEA 0183: the xor of the code units of the body, written in upper-case
  hexadecimal with at least two digits.
\<close>

definition xor_units :: "jsstring \<Rightarrow> nat" where
  "xor_units s = fold (\<lambda>u c. c XOR u) s 0"

definition hex_upper :: "nat \<Rightarrow> codeunit" where
  "hex_upper d = lit ''0123456789ABCDEF'' ! d"

definition is_upper_hex :: "codeunit \<Rightarrow> bool" where
  "is_upper_hex u = (u \<in> set (lit ''0123456789ABCDEF''))"

text \<open>The hexadecimal numeral of a number, and the number that a numeral stands for.\<close>

function upper_hex :: "nat \<Rightarrow> jsstring" where
  "upper_hex n =
     (if n < 16 then [hex_upper n] else upper_hex (n div 16) @ [hex_upper (n mod 16)])"
  by pat_completeness auto
termination
  by (relation "measure (\<lambda>n. n)") auto

declare upper_hex.simps [simp del]

definition hex_digit_value :: "codeunit \<Rightarrow> nat" where
  "hex_digit_value u = (if u \<le> of_char (CHR ''9'') then u - of_char (CHR ''0'')
                        else u - of_char (CHR ''A'') + 10)"

definition hex_value :: "jsstring \<Rightarrow> nat" where
  "hex_value s = foldl (\<lambda>a u. 16 * a + hex_digit_value u) 0 s"

definition checksum_text :: "nat \<Rightarrow> jsstring" where
  "checksum_text x = (if x < 16 then lit ''0'' @ upper_hex x else upper_hex x)"

text \<open>The two digits of a number below 256.\<close>

definition hex2 :: "nat \<Rightarrow> jsstring" where
  "hex2 n = [hex_upper (n div 16), hex_upper (n mod 16)]"

text \<open>A field of a sentence: empty for an absent angle.\<close>

definition angle_field :: "real option \<Rightarrow> jsstring" where
  "angle_field a = (case a of None \<Rightarrow> [] | Some d \<Rightarrow> fmtDeg d)"

definition BOD_body ::
    "jsstring \<Rightarrow> real option \<Rightarrow> real option \<Rightarrow> jsstring option \<Rightarrow> jsstring option \<Rightarrow> jsstring" where
  "BOD_body tk trueDeg magDeg dest orig =
     tk @ lit ''BOD,'' @ angle_field trueDeg @ lit '',T,'' @ angle_field magDeg @ lit '',M,''
     @ or_empty dest @ lit '','' @ or_empty orig"

text \<open>
  Two mappings to put in the place of the engine's \<open>toUpperCase\<close>: they agree with it on
  every string of ASCII code units, the second one also where U+00DF occurs.
\<close>

definition toUpperCase_sharp_s :: "jsstring \<Rightarrow> jsstring" where
  "toUpperCase_sharp_s s =
     concat (map (\<lambda>u. if u = 223 then lit ''SS'' else [toUpperCase_ascii_unit u]) s)"

text \<open>The commands the handler knows.\<close>

definition commands :: "string list" where
  "commands =
     [''enable'', ''disable'', ''mode_bod'', ''mode_apb'', ''hold_heading'',
      ''set_heading'', ''clear_heading'', ''hold_rhumb'', ''stop_track'',
      ''p1'', ''m1'', ''p10'', ''m10'']"

section \<open>Scenarios\<close>

definition example_config :: config where
  "example_config = \<lparr>talker = lit ''II'', gpsStaleSeconds = 5, PATHS = default_paths\<rparr>"

definition no_data :: provider where
  "no_data = Map.empty"

text \<open>A position stamped at 1000 ms and a magnetic course of 90 degrees.\<close>

definition fix_and_cog :: provider where
  "fix_and_cog =
     [''navigation.position'' \<mapsto>
        \<lparr>nvalue = Some (Object (Finite 50) (Finite 10)), ntimestamp = Some (Finite 1000)\<rparr>,
      ''navigation.courseOverGroundMagnetic'' \<mapsto>
        \<lparr>nvalue = Some (Scalar (Finite 90)), ntimestamp = None\<rparr>]"

text \<open>A true course of 90 degrees and a variation of 5 degrees east, in radians.\<close>

definition true_cog_and_variation :: provider where
  "true_cog_and_variation =
     [''navigation.courseOverGroundTrue'' \<mapsto>
        \<lparr>nvalue = Some (Scalar (Finite 90)), ntimestamp = None\<rparr>,
      ''navigation.magneticVariation'' \<mapsto>
        \<lparr>nvalue = Some (Scalar (Finite (pi / 36))), ntimestamp = None\<rparr>]"

text \<open>A provider whose only reading is the magnetic heading, with the raw value \<open>x\<close>.\<close>

definition heading_reading :: "real \<Rightarrow> provider" where
  "heading_reading x =
     [''navigation.headingMagnetic'' \<mapsto>
        \<lparr>nvalue = Some (Scalar (Finite x)), ntimestamp = None\<rparr>]"

text \<open>A successful \<open>hold_rhumb\<close>, then \<open>set_heading\<close> with the value 10.\<close>

definition rhumb_then_heading :: "(provider \<times> real \<times> string \<times> jsnumber) list" where
  "rhumb_then_heading =
     [(fix_and_cog, 2000, ''hold_rhumb'', NaN),
      (fix_and_cog, 3000, ''set_heading'', Finite 10)]"

text \<open>The plugin enabled and holding a track: a successful \<open>hold_rhumb\<close> at 2000 ms.\<close>

definition tracking :: state where
  "tracking =
     (cmd example_config fix_and_cog 2000 ''hold_rhumb'' NaN initial_state)\<lparr>enabled := True\<rparr>"

section \<open>Rounding and wrapping\<close>

lemma js_rem_nonneg: "0 \<le> a \<Longrightarrow> 0 \<le> js_rem a 360 \<and> js_rem a 360 < 360"
proof -
  assume a: "0 \<le> a"
  have e: "js_rem a 360 = a - 360 * real_of_int \<lfloor>a / 360\<rfloor>"
    using a by (simp add: js_rem_def js_trunc_def)
  have f1: "real_of_int \<lfloor>a / 360\<rfloor> \<le> a / 360" by linarith
  have f2: "a / 360 < real_of_int \<lfloor>a / 360\<rfloor> + 1" by linarith
  from e f1 f2 show ?thesis by linarith
qed

lemma js_rem_neg: "a < 0 \<Longrightarrow> - 360 < js_rem a 360 \<and> js_rem a 360 \<le> 0"
proof -
  assume a: "a < 0"
  have e: "js_rem a 360 = a + 360 * real_of_int \<lfloor>- (a / 360)\<rfloor>"
    using a by (simp add: js_rem_def js_trunc_def)
  have f1: "real_of_int \<lfloor>- (a / 360)\<rfloor> \<le> - (a / 360)" by linarith
  have f2: "- (a / 360) < real_of_int \<lfloor>- (a / 360)\<rfloor> + 1" by linarith
  from e f1 f2 show ?thesis by linarith
qed

lemma wrapped_range: "0 \<le> wrapped a \<and> wrapped a < 360"
  using js_rem_nonneg [of a] js_rem_neg [of a]
  by (cases "0 \<le> a") (auto simp: wrapped_def Let_def)

lemma wrap360_wrapped: "wrap360 a = Math_round (wrapped a * 10) / 10"
  by (simp add: wrap360_def wrapped_def Let_def)

text \<open>What does hold of \<open>wrap360\<close>: the result is a number of tenths from 0 to 360, both included.\<close>

lemma wrap360_tenths: "\<exists>k::int. 0 \<le> k \<and> k \<le> 3600 \<and> wrap360 a = of_int k / 10"
proof -
  have r: "0 \<le> wrapped a \<and> wrapped a < 360" by (rule wrapped_range)
  then have "0 \<le> \<lfloor>wrapped a * 10 + 1 / 2\<rfloor>" by simp
  moreover from r have "\<lfloor>wrapped a * 10 + 1 / 2\<rfloor> \<le> 3600" by (simp add: floor_le_iff)
  ultimately show ?thesis
    by (intro exI [of _ "\<lfloor>wrapped a * 10 + 1 / 2\<rfloor>"]) (simp add: wrap360_wrapped Math_round_def)
qed

lemma wrap360_range: "0 \<le> wrap360 a \<and> wrap360 a \<le> 360"
proof -
  obtain k :: int where "0 \<le> k" "k \<le> 3600" "wrap360 a = of_int k / 10"
    using wrap360_tenths by blast
  then show ?thesis by simp
qed

lemma wrap360_of_tenths:
  assumes "0 \<le> k" "k < 3600"
  shows "wrap360 (of_int k / 10) = of_int k / 10"
proof -
  have "\<lfloor>real_of_int k / 3600\<rfloor> = 0" using assms by (simp add: floor_eq_iff)
  then have "js_rem (of_int k / 10) 360 = of_int k / 10"
    using assms by (simp add: js_rem_def js_trunc_def)
  then show ?thesis using assms by (simp add: wrap360_def Let_def Math_round_def)
qed

text \<open>Wrapping twice changes nothing as long as the first result is below 360.\<close>

lemma wrap360_idem_below: "wrap360 a < 360 \<Longrightarrow> wrap360 (wrap360 a) = wrap360 a"
proof -
  assume lt: "wrap360 a < 360"
  obtain k :: int where k: "0 \<le> k" "k \<le> 3600" "wrap360 a = of_int k / 10"
    using wrap360_tenths by blast
  with lt have "k < 3600" by simp
  with k have "wrap360 (of_int k / 10) = of_int k / 10" by (intro wrap360_of_tenths) auto
  then show ?thesis by (simp only: k(3))
qed

lemma wrap360_eval:
  "wrap360 (11519 / 32) = 360"
  "wrap360 360 = 0"
  "wrap360 400 = 40"
  "wrap360 90 = 90"
  "wrap360 10 = 10"
  "wrap360 5 = 5"
  "wrap360 85 = 85"
  "wrap360 (573 / 10) = 573 / 10"
  by (simp_all add: wrap360_def js_rem_def js_trunc_def Math_round_def Let_def)

section \<open>Reading angles\<close>

lemma threshold_bounds: "9 / 2 \<le> pi * 2 + 0.5 \<and> pi * 2 + 0.5 < 17 / 2"
  using pi_ge_two pi_less_4 by simp

lemma readAngleDeg_Scalar:
  "getValue app path = Some (Scalar (Finite x)) \<Longrightarrow>
   readAngleDeg app path = Some (wrap360 (if \<bar>x\<bar> \<le> pi * 2 + 0.5 then radToDeg x else x))"
  by (simp add: readAngleDeg_def Let_def)

lemma readAngleDeg_degrees:
  assumes "getValue app path = Some (Scalar (Finite x))" and "17 / 2 \<le> \<bar>x\<bar>"
  shows "readAngleDeg app path = Some (wrap360 x)"
proof -
  from assms(2) threshold_bounds have "\<not> \<bar>x\<bar> \<le> pi * 2 + 0.5" by linarith
  with assms(1) show ?thesis by (simp add: readAngleDeg_Scalar)
qed

lemma readAngleDeg_radians:
  assumes "getValue app path = Some (Scalar (Finite x))" and "\<bar>x\<bar> \<le> 9 / 2"
  shows "readAngleDeg app path = Some (wrap360 (radToDeg x))"
proof -
  from assms(2) threshold_bounds have "\<bar>x\<bar> \<le> pi * 2 + 0.5" by linarith
  with assms(1) show ?thesis by (simp add: readAngleDeg_Scalar)
qed

lemma readAngleDeg_absent: "app path = None \<Longrightarrow> readAngleDeg app path = None"
  by (simp add: readAngleDeg_def getValue_def)

section \<open>The scenarios, evaluated\<close>

lemma fix_and_cog_angles:
  "readAngleDeg fix_and_cog ''navigation.courseOverGroundMagnetic'' = Some 90"
  "readAngleDeg fix_and_cog ''navigation.courseOverGroundTrue'' = None"
  "readAngleDeg fix_and_cog ''navigation.headingMagnetic'' = None"
  "readAngleDeg fix_and_cog ''navigation.headingTrue'' = None"
  "readAngleDeg fix_and_cog ''navigation.magneticVariation'' = None"
proof -
  have "getValue fix_and_cog ''navigation.courseOverGroundMagnetic'' = Some (Scalar (Finite 90))"
    by (simp add: getValue_def fix_and_cog_def)
  then show "readAngleDeg fix_and_cog ''navigation.courseOverGroundMagnetic'' = Some 90"
    using readAngleDeg_degrees [of fix_and_cog _ 90] by (simp add: wrap360_eval)
qed (simp_all add: readAngleDeg_absent fix_and_cog_def)

lemma fix_and_cog_position:
  "readPosition fix_and_cog ''navigation.position'' =
     Some \<lparr>lat = 50, lon = 10, timestampMs = Some 1000\<rparr>"
  by (simp add: readPosition_def getValue_def getTimestamp_def fix_and_cog_def)

lemma fix_and_cog_best:
  "best (computeStatus fix_and_cog now default_paths 5) =
     \<lparr>position = Some \<lparr>lat = 50, lon = 10\<rparr>, positionFresh = (now \<le> 6000),
      variationDeg = None, cogMagDeg = Some 90,
      cogMagSource = Some ''navigation.courseOverGroundMagnetic'',
      headingMagDeg = None, headingMagSource = None\<rparr>"
  by (simp add: computeStatus_def default_paths_def fix_and_cog_angles fix_and_cog_position Let_def)

lemma after_hold_rhumb:
  "cmd example_config fix_and_cog 2000 ''hold_rhumb'' NaN initial_state =
     initial_state\<lparr>trackStart := Some \<lparr>lat = 50, lon = 10\<rparr>, trackBearingMagDeg := Some 90,
       trackBearingTrueDeg := None, trackActive := True, mode := APB, targetMagDeg := None\<rparr>"
  by (simp add: cmd_def example_config_def fix_and_cog_best Let_def wrap360_eval)

lemma after_rhumb_then_heading:
  "run_cmds example_config rhumb_then_heading initial_state =
     initial_state\<lparr>trackStart := Some \<lparr>lat = 50, lon = 10\<rparr>, trackBearingMagDeg := Some 90,
       targetMagDeg := Some 10\<rparr>"
  apply (simp add: rhumb_then_heading_def after_hold_rhumb)
  apply (simp add: cmd_def Let_def initial_state_def wrap360_eval)
  done

lemma no_data_best:
  "best (computeStatus no_data now P stale) =
     \<lparr>position = None, positionFresh = False, variationDeg = None, cogMagDeg = None,
      cogMagSource = None, headingMagDeg = None, headingMagSource = None\<rparr>"
  by (simp add: computeStatus_def readAngleDeg_def readPosition_def getValue_def no_data_def Let_def)

section \<open>The command handler: frame and invariant\<close>

lemma cmd_other: "c \<notin> set commands \<Longrightarrow> cmd cfg app now c n s = s"
  by (simp add: cmd_def Let_def commands_def)

text \<open>
  Every command keeps this much of the invariant: an active track has a start position
  and a bearing.
\<close>

lemma cmd_keeps_active_defined:
  assumes inv: "trackActive s \<longrightarrow> trackStart s \<noteq> None \<and> trackBearingMagDeg s \<noteq> None"
  shows "trackActive (cmd cfg app now c n s) \<longrightarrow>
         trackStart (cmd cfg app now c n s) \<noteq> None \<and>
         trackBearingMagDeg (cmd cfg app now c n s) \<noteq> None"
proof (cases "c \<in> set commands")
  case False
  then show ?thesis using inv by (simp add: cmd_other)
next
  case True
  then have d: "c = ''enable'' \<or> c = ''disable'' \<or> c = ''mode_bod'' \<or> c = ''mode_apb''
    \<or> c = ''hold_heading'' \<or> c = ''set_heading'' \<or> c = ''clear_heading''
    \<or> c = ''hold_rhumb'' \<or> c = ''stop_track''
    \<or> c = ''p1'' \<or> c = ''m1'' \<or> c = ''p10'' \<or> c = ''m10''"
    by (simp add: commands_def)
  from d inv show ?thesis
    apply (elim disjE)
    apply (simp_all add: cmd_def Let_def split: option.splits jsnumber.splits)
    apply auto
    done
qed

lemma run_cmds_keeps_active_defined:
  "trackActive s \<longrightarrow> trackStart s \<noteq> None \<and> trackBearingMagDeg s \<noteq> None \<Longrightarrow>
   trackActive (run_cmds cfg cs s) \<longrightarrow>
   trackStart (run_cmds cfg cs s) \<noteq> None \<and> trackBearingMagDeg (run_cmds cfg cs s) \<noteq> None"
proof (induction cs arbitrary: s)
  case Nil
  then show ?case by simp
next
  case (Cons x cs)
  obtain app now c n where x: "x = (app, now, c, n)" by (cases x) auto
  from Cons.prems have "trackActive (cmd cfg app now c n s) \<longrightarrow>
      trackStart (cmd cfg app now c n s) \<noteq> None \<and>
      trackBearingMagDeg (cmd cfg app now c n s) \<noteq> None"
    by (rule cmd_keeps_active_defined)
  then show ?case unfolding x run_cmds.simps by (rule Cons.IH)
qed

lemma tick_frame:
  "trackActive (fst (tick cfg app now s)) = trackActive s \<and>
   trackStart (fst (tick cfg app now s)) = trackStart s \<and>
   trackBearingMagDeg (fst (tick cfg app now s)) = trackBearingMagDeg s \<and>
   enabled (fst (tick cfg app now s)) = enabled s \<and>
   mode (fst (tick cfg app now s)) = mode s \<and>
   targetMagDeg (fst (tick cfg app now s)) = targetMagDeg s"
  by (simp add: tick_def emit_def Let_def split: mode.splits option.splits)

text \<open>The same holds in every state that starts, commands and ticks can reach.\<close>

lemma reachable_active_defined:
  "reachable cfg s \<Longrightarrow>
   trackActive s \<longrightarrow> trackStart s \<noteq> None \<and> trackBearingMagDeg s \<noteq> None"
proof (induction rule: reachable.induct)
  case reachable_initial
  show ?case by (simp add: initial_state_def)
next
  case (reachable_step s e)
  show ?case
  proof (cases e)
    case (Start b m)
    with reachable_step.IH show ?thesis by (simp add: start_def)
  next
    case (Cmd app now c n)
    with cmd_keeps_active_defined [OF reachable_step.IH] show ?thesis by simp
  next
    case (Tick app now)
    with reachable_step.IH show ?thesis by (simp add: tick_frame)
  qed
qed

section \<open>The output loop never emits without a target\<close>

lemma tick_silent:
  assumes "\<not> enabled s
         \<or> (mode s = BOD \<and> targetMagDeg s = None)
         \<or> (mode s = APB \<and> (\<not> trackActive s \<or> \<not> positionFresh (fused cfg app now)))"
  shows "tick cfg app now s =
           (s\<lparr>lastStatus := Some (computeStatus app now (PATHS cfg) (gpsStaleSeconds cfg))\<rparr>, None)"
  using assms by (auto simp add: tick_def Let_def split: mode.splits option.splits)

text \<open>
  Claim C1. On a tick nothing is emitted when the plugin is not enabled, or when the mode
  is heading hold (\<open>BOD\<close>) and no target heading is set, or when the mode is track hold
  (\<open>APB\<close>) and the track is not active or the position is not fresh. The tick then only
  records the status it computed: the sink receives nothing and the last sentence stays.
  This holds in every state, so in every state that a run of starts, commands and ticks
  reaches.
\<close>

theorem tick_never_emits_without_target:
  assumes "\<not> enabled s
         \<or> (mode s = BOD \<and> targetMagDeg s = None)
         \<or> (mode s = APB \<and> (\<not> trackActive s \<or> \<not> positionFresh (fused cfg app now)))"
  shows "snd (step cfg (Tick app now) s) = None
       \<and> fst (step cfg (Tick app now) s) =
           s\<lparr>lastStatus := Some (computeStatus app now (PATHS cfg) (gpsStaleSeconds cfg))\<rparr>"
  using tick_silent [OF assms] by simp

theorem tick_never_emits_without_target_witness:
  "snd (step example_config (Tick no_data 0) initial_state) = None
 \<and> snd (step example_config (Tick no_data 0) (initial_state\<lparr>enabled := True\<rparr>)) = None
 \<and> snd (step example_config (Tick fix_and_cog 60000) tracking) = None"
proof -
  have h1: "\<not> enabled initial_state" by (simp add: initial_state_def)
  have h2: "mode (initial_state\<lparr>enabled := True\<rparr>) = BOD \<and>
            targetMagDeg (initial_state\<lparr>enabled := True\<rparr>) = None"
    by (simp add: initial_state_def)
  have h3: "mode tracking = APB \<and> \<not> positionFresh (fused example_config fix_and_cog 60000)"
    by (simp add: tracking_def after_hold_rhumb) (simp add: example_config_def fix_and_cog_best)
  from h1 have "snd (step example_config (Tick no_data 0) initial_state) = None"
    using tick_never_emits_without_target
      [where s = initial_state and cfg = example_config and app = no_data and now = 0]
    by simp
  moreover from h2 have
    "snd (step example_config (Tick no_data 0) (initial_state\<lparr>enabled := True\<rparr>)) = None"
    using tick_never_emits_without_target
      [where s = "initial_state\<lparr>enabled := True\<rparr>" and cfg = example_config
         and app = no_data and now = 0]
    by simp
  moreover from h3 have "snd (step example_config (Tick fix_and_cog 60000) tracking) = None"
    using tick_never_emits_without_target
      [where s = tracking and cfg = example_config and app = fix_and_cog and now = 60000]
    by simp
  ultimately show ?thesis by simp
qed

text \<open>The guard is not idle: with a target and the plugin enabled, the tick emits.\<close>

lemma tick_emits_heading:
  "enabled s \<Longrightarrow> mode s = BOD \<Longrightarrow> targetMagDeg s = Some tgt \<Longrightarrow>
   snd (tick cfg app now s) =
     Some (buildBOD (talker cfg)
            (case variationDeg (fused cfg app now) of
               Some v \<Rightarrow> Some (wrap360 (tgt + v)) | None \<Rightarrow> None)
            (Some tgt) (Some (lit ''DEST'')) (Some (lit ''ORIG'')))"
  by (simp add: tick_def emit_def Let_def)

lemma tick_emits_track:
  "enabled s \<Longrightarrow> mode s = APB \<Longrightarrow> trackActive s \<Longrightarrow> trackStart s \<noteq> None \<Longrightarrow>
   trackBearingMagDeg s \<noteq> None \<Longrightarrow> positionFresh (fused cfg app now) \<Longrightarrow>
   position (fused cfg app now) \<noteq> None \<Longrightarrow>
   snd (tick cfg app now s) \<noteq> None"
  by (simp add: tick_def emit_def Let_def)

text \<open>Conversely, a tick that emits had the plugin enabled and a target for its mode.\<close>

lemma tick_emits_only_with_target:
  assumes "snd (tick cfg app now s) = Some x"
  shows "enabled s \<and>
         ((mode s = BOD \<and> targetMagDeg s \<noteq> None) \<or>
          (mode s = APB \<and> trackActive s \<and> trackStart s \<noteq> None \<and>
           trackBearingMagDeg s \<noteq> None \<and> positionFresh (fused cfg app now) \<and>
           position (fused cfg app now) \<noteq> None))"
  using assms
  by (cases "mode s") (auto simp add: tick_def emit_def Let_def split: option.splits if_splits)

text \<open>The reachable states are the states at the end of a run from the initial state.\<close>

lemma run_append: "run cfg (es @ es') s = run cfg es' (run cfg es s)"
  by (induction es arbitrary: s) simp_all

lemma reachable_run: "reachable cfg s \<Longrightarrow> reachable cfg (run cfg es s)"
  by (induction es arbitrary: s) (simp_all add: reachable_step)

lemma reachable_iff_run: "reachable cfg s \<longleftrightarrow> (\<exists>es. s = run cfg es initial_state)"
proof
  assume "reachable cfg s"
  then show "\<exists>es. s = run cfg es initial_state"
  proof (induction rule: reachable.induct)
    case reachable_initial
    have "initial_state = run cfg [] initial_state" by simp
    then show ?case by (rule exI)
  next
    case (reachable_step s e)
    then obtain es where "s = run cfg es initial_state" by (elim exE)
    then have "fst (step cfg e s) = run cfg (es @ [e]) initial_state"
      by (simp add: run_append)
    then show ?case by (rule exI)
  qed
next
  assume "\<exists>es. s = run cfg es initial_state"
  then show "reachable cfg s" by (auto intro: reachable_run reachable_initial)
qed

text \<open>In a reachable state only a tick emits, and only with the plugin enabled and a target.\<close>

lemma reachable_emission:
  assumes "reachable cfg s" and "snd (step cfg e s) = Some x"
  shows "\<exists>app now. e = Tick app now \<and> enabled s \<and>
           ((mode s = BOD \<and> targetMagDeg s \<noteq> None) \<or>
            (mode s = APB \<and> trackActive s \<and> positionFresh (fused cfg app now)))"
proof (cases e)
  case (Start b m)
  with assms(2) show ?thesis by simp
next
  case (Cmd app now c n)
  with assms(2) show ?thesis by simp
next
  case (Tick app now)
  with assms(2) have "snd (tick cfg app now s) = Some x" by simp
  from tick_emits_only_with_target [OF this] Tick show ?thesis by blast
qed

text \<open>The loop of index.js has the same guard.\<close>

lemma bod_tick_silent:
  "\<not> b_enabled s \<or> b_targetMagDeg s = None \<Longrightarrow> bod_tick bcfg app now s = (s, None)"
  by (auto simp add: bod_tick_def)

section \<open>The track invariant\<close>

text \<open>
  Claim C2, as stated, fails: \<open>hold_heading\<close> and \<open>set_heading\<close> switch the track off
  and keep its start position and bearing. After a successful \<open>hold_rhumb\<close> followed by
  \<open>set_heading\<close> the track is not active although both are set.
\<close>

theorem track_active_iff_defined_counterexample:
  "\<not> (trackActive (run_cmds example_config rhumb_then_heading initial_state) \<longleftrightarrow>
        trackStart (run_cmds example_config rhumb_then_heading initial_state) \<noteq> None \<and>
        trackBearingMagDeg (run_cmds example_config rhumb_then_heading initial_state) \<noteq> None)"
  unfolding after_rhumb_then_heading by (simp add: initial_state_def)

text \<open>
  Claim C2, amended. After every sequence of commands from the initial state, an active
  track has a start position and a magnetic bearing.
\<close>

theorem track_active_implies_defined:
  "trackActive (run_cmds cfg cs initial_state) \<longrightarrow>
     trackStart (run_cmds cfg cs initial_state) \<noteq> None \<and>
     trackBearingMagDeg (run_cmds cfg cs initial_state) \<noteq> None"
  by (rule run_cmds_keeps_active_defined) (simp add: initial_state_def)

theorem track_active_implies_defined_witness:
  "trackActive (run_cmds example_config [(fix_and_cog, 2000, ''hold_rhumb'', NaN)] initial_state)
 \<and> trackStart (run_cmds example_config [(fix_and_cog, 2000, ''hold_rhumb'', NaN)] initial_state)
     \<noteq> None
 \<and> trackBearingMagDeg
       (run_cmds example_config [(fix_and_cog, 2000, ''hold_rhumb'', NaN)] initial_state)
     \<noteq> None"
proof -
  have a: "trackActive
             (run_cmds example_config [(fix_and_cog, 2000, ''hold_rhumb'', NaN)] initial_state)"
    by (simp add: after_hold_rhumb)
  with track_active_implies_defined
         [of example_config "[(fix_and_cog, 2000, ''hold_rhumb'', NaN)]"]
  show ?thesis by blast
qed

section \<open>The commands \<open>set_heading\<close> and \<open>hold_rhumb\<close>\<close>

lemma cmd_set_heading_finite:
  "cmd cfg app now ''set_heading'' (Finite r) s =
     s\<lparr>targetMagDeg := Some (wrap360 r), mode := BOD, trackActive := False\<rparr>"
  by (simp add: cmd_def Let_def)

lemma cmd_set_heading_not_finite:
  "\<not> isFinite n \<Longrightarrow> cmd cfg app now ''set_heading'' n s = s"
  by (cases n) (simp_all add: cmd_def Let_def)

lemma bod_cmd_set_finite:
  "bod_cmd bcfg app ''set'' (Finite r) bs = bs\<lparr>b_targetMagDeg := Some (wrap360 r)\<rparr>"
  by (simp add: bod_cmd_def Let_def)

lemma bod_cmd_set_not_finite:
  "\<not> isFinite n \<Longrightarrow> bod_cmd bcfg app ''set'' n bs = bs"
  by (cases n) (simp_all add: bod_cmd_def Let_def)

text \<open>
  Claim C8. For a finite number \<open>r\<close>, \<open>set_heading\<close> sets the target heading to
  \<open>wrap360 r\<close>, the mode to heading hold and the track inactive, and changes nothing
  else; the value 400 gives the target 40. For a value that is not finite the state is
  unchanged. The \<open>set\<close> command of index.js, which has no mode and no track, sets the
  target the same way.
\<close>

theorem set_heading_effect:
  "cmd cfg app now ''set_heading'' (Finite r) s =
     s\<lparr>targetMagDeg := Some (wrap360 r), mode := BOD, trackActive := False\<rparr>
 \<and> targetMagDeg (cmd cfg app now ''set_heading'' (Finite 400) s) = Some 40
 \<and> trackActive (cmd cfg app now ''set_heading'' (Finite r) s) = False
 \<and> (\<not> isFinite n \<longrightarrow> cmd cfg app now ''set_heading'' n s = s)
 \<and> bod_cmd bcfg app ''set'' (Finite r) bs = bs\<lparr>b_targetMagDeg := Some (wrap360 r)\<rparr>
 \<and> (\<not> isFinite n \<longrightarrow> bod_cmd bcfg app ''set'' n bs = bs)"
  by (simp add: cmd_set_heading_finite cmd_set_heading_not_finite
        bod_cmd_set_finite bod_cmd_set_not_finite wrap360_eval)

theorem set_heading_effect_witness:
  "\<not> isFinite NaN
 \<and> cmd example_config fix_and_cog 3000 ''set_heading'' NaN tracking = tracking
 \<and> targetMagDeg (cmd example_config fix_and_cog 3000 ''set_heading'' (Finite 400) tracking)
     = Some 40
 \<and> mode (cmd example_config fix_and_cog 3000 ''set_heading'' (Finite 400) tracking) = BOD
 \<and> trackActive tracking
 \<and> trackActive (cmd example_config fix_and_cog 3000 ''set_heading'' (Finite 400) tracking)
     = False"
proof -
  have t: "trackActive tracking" by (simp add: tracking_def after_hold_rhumb)
  have n: "\<not> isFinite NaN" by simp
  from set_heading_effect
         [where cfg = example_config and app = fix_and_cog and now = 3000 and r = 400
            and n = NaN and s = tracking]
  show ?thesis using t n by (simp add: wrap360_eval)
qed

lemma hold_rhumb_noop:
  assumes "position (fused cfg app now) = None
         \<or> \<not> positionFresh (fused cfg app now)
         \<or> (cogMagDeg (fused cfg app now) = None \<and> headingMagDeg (fused cfg app now) = None)"
  shows "cmd cfg app now ''hold_rhumb'' n s = s"
  using assms by (auto simp add: cmd_def Let_def split: option.splits)

text \<open>With its precondition met, \<open>hold_rhumb\<close> captures the track.\<close>

lemma hold_rhumb_captures:
  assumes "position (fused cfg app now) = Some p" and "positionFresh (fused cfg app now)"
    and "cogMagDeg (fused cfg app now) = Some b"
  shows "cmd cfg app now ''hold_rhumb'' n s =
           s\<lparr>trackStart := Some \<lparr>lat = lat p, lon = lon p\<rparr>,
             trackBearingMagDeg := Some (wrap360 b),
             trackBearingTrueDeg :=
               (case variationDeg (fused cfg app now) of
                  Some v \<Rightarrow> Some (wrap360 (wrap360 b + v))
                | None \<Rightarrow> None),
             trackActive := True, mode := APB, targetMagDeg := None\<rparr>"
  using assms by (simp add: cmd_def Let_def)

text \<open>The position is fresh exactly when it carries a timestamp no older than the threshold.\<close>

lemma positionFresh_iff:
  "positionFresh (best (computeStatus app now P stale)) \<longleftrightarrow>
     (\<exists>p ts. readPosition app (path_position P) = Some p \<and> timestampMs p = Some ts
             \<and> now - ts \<le> stale * 1000)"
  by (auto simp add: computeStatus_def Let_def split: option.splits prod.splits)

text \<open>
  Claim C7. When the precondition of \<open>hold_rhumb\<close> fails, that is, the position is absent
  or not fresh, or neither the magnetic course nor the magnetic heading is known, the
  command returns the state it found: the handler is a total function, and no field of
  the state changes. In particular a track that is not active stays so.
\<close>

theorem hold_rhumb_failed_precondition_is_noop:
  assumes "position (fused cfg app now) = None
         \<or> \<not> positionFresh (fused cfg app now)
         \<or> (cogMagDeg (fused cfg app now) = None \<and> headingMagDeg (fused cfg app now) = None)"
  shows "cmd cfg app now ''hold_rhumb'' n s = s
       \<and> (trackActive s = False \<longrightarrow> trackActive (cmd cfg app now ''hold_rhumb'' n s) = False)"
  using hold_rhumb_noop [OF assms] by simp

theorem hold_rhumb_failed_precondition_is_noop_witness:
  "\<not> positionFresh (fused example_config fix_and_cog 60000)
 \<and> cmd example_config fix_and_cog 60000 ''hold_rhumb'' NaN initial_state = initial_state
 \<and> trackActive (cmd example_config fix_and_cog 60000 ''hold_rhumb'' NaN initial_state) = False
 \<and> cogMagDeg (fused example_config no_data 0) = None
 \<and> headingMagDeg (fused example_config no_data 0) = None
 \<and> cmd example_config no_data 0 ''hold_rhumb'' NaN tracking = tracking"
proof -
  have stale: "\<not> positionFresh (fused example_config fix_and_cog 60000)"
    by (simp add: example_config_def fix_and_cog_best)
  have unknown: "cogMagDeg (fused example_config no_data 0) = None
               \<and> headingMagDeg (fused example_config no_data 0) = None"
    by (simp add: no_data_best)
  have i: "trackActive initial_state = False" by (simp add: initial_state_def)
  from stale have
    "cmd example_config fix_and_cog 60000 ''hold_rhumb'' NaN initial_state = initial_state"
    using hold_rhumb_failed_precondition_is_noop
      [where cfg = example_config and app = fix_and_cog and now = 60000 and n = NaN
         and s = initial_state]
    by simp
  moreover from unknown have "cmd example_config no_data 0 ''hold_rhumb'' NaN tracking = tracking"
    using hold_rhumb_failed_precondition_is_noop
      [where cfg = example_config and app = no_data and now = 0 and n = NaN and s = tracking]
    by simp
  ultimately show ?thesis using stale unknown i by simp
qed

section \<open>The fallback order of the magnetic course over ground\<close>

lemma computeStatus_cogMag:
  "cogMagDeg (best (computeStatus app now P stale)) =
     fst (fuse_cogMag (readAngleDeg app (path_cogMag P)) (readAngleDeg app (path_cogTrue P))
            (readAngleDeg app (path_variation P)) (readAngleDeg app (path_hdgMag P)))"
  by (simp add: computeStatus_def fuse_cogMag_def Let_def split: option.splits)

lemma computeStatus_cogMagSource:
  "cogMagSource (best (computeStatus app now P stale)) =
     cog_source_tag P
       (snd (fuse_cogMag (readAngleDeg app (path_cogMag P)) (readAngleDeg app (path_cogTrue P))
               (readAngleDeg app (path_variation P)) (readAngleDeg app (path_hdgMag P))))"
  by (simp add: computeStatus_def fuse_cogMag_def Let_def split: option.splits)

lemma default_tags_distinct:
  "distinct (map (cog_source_tag default_paths) [Direct, DerivedFromTrue, FallbackHeading, NoSource])"
  by (simp add: default_paths_def)

lemma true_cog_and_variation_angles:
  "readAngleDeg true_cog_and_variation ''navigation.courseOverGroundMagnetic'' = None"
  "readAngleDeg true_cog_and_variation ''navigation.courseOverGroundTrue'' = Some 90"
  "readAngleDeg true_cog_and_variation ''navigation.magneticVariation'' = Some 5"
proof -
  show "readAngleDeg true_cog_and_variation ''navigation.courseOverGroundMagnetic'' = None"
    by (simp add: readAngleDeg_absent true_cog_and_variation_def)
  have "getValue true_cog_and_variation ''navigation.courseOverGroundTrue''
          = Some (Scalar (Finite 90))"
    by (simp add: getValue_def true_cog_and_variation_def)
  then show "readAngleDeg true_cog_and_variation ''navigation.courseOverGroundTrue'' = Some 90"
    using readAngleDeg_degrees [of true_cog_and_variation _ 90] by (simp add: wrap360_eval)
  have v: "getValue true_cog_and_variation ''navigation.magneticVariation''
          = Some (Scalar (Finite (pi / 36)))"
    by (simp add: getValue_def true_cog_and_variation_def)
  have "\<bar>pi / 36\<bar> \<le> 9 / 2" using pi_less_4 pi_gt_zero by simp
  with v have "readAngleDeg true_cog_and_variation ''navigation.magneticVariation''
          = Some (wrap360 (radToDeg (pi / 36)))"
    by (rule readAngleDeg_radians)
  moreover have "radToDeg (pi / 36) = 5" by (simp add: radToDeg_def)
  ultimately show "readAngleDeg true_cog_and_variation ''navigation.magneticVariation'' = Some 5"
    by (simp add: wrap360_eval)
qed

text \<open>
  Claim C4. Whatever readings are present, the fused magnetic course and its source tag
  follow the fallback order: the direct magnetic course; else \<open>wrap360 (true - variation)\<close>
  when the true course and the variation are both present; else the magnetic heading; else
  nothing. Each case writes its own tag, and with the default paths the tags differ. With
  no direct magnetic course, a true course of 90 and a variation of 5 the fused value is 85,
  tagged as derived from the true course.
\<close>

theorem cogMag_fallback_order:
  "cogMagDeg (best (computeStatus app now P stale)) =
     fst (fuse_cogMag (readAngleDeg app (path_cogMag P)) (readAngleDeg app (path_cogTrue P))
            (readAngleDeg app (path_variation P)) (readAngleDeg app (path_hdgMag P)))
 \<and> cogMagSource (best (computeStatus app now P stale)) =
     cog_source_tag P
       (snd (fuse_cogMag (readAngleDeg app (path_cogMag P)) (readAngleDeg app (path_cogTrue P))
               (readAngleDeg app (path_variation P)) (readAngleDeg app (path_hdgMag P))))
 \<and> distinct (map (cog_source_tag default_paths)
               [Direct, DerivedFromTrue, FallbackHeading, NoSource])
 \<and> (readAngleDeg app (path_cogMag P) = None \<and>
      readAngleDeg app (path_cogTrue P) = Some 90 \<and>
      readAngleDeg app (path_variation P) = Some 5 \<longrightarrow>
      cogMagDeg (best (computeStatus app now P stale)) = Some 85 \<and>
      cogMagSource (best (computeStatus app now P stale)) = Some (path_cogTrue P @ '' + variation''))"
  by (simp only: computeStatus_cogMag computeStatus_cogMagSource default_tags_distinct)
     (simp add: fuse_cogMag_def wrap360_eval)

theorem cogMag_fallback_order_witness:
  "readAngleDeg true_cog_and_variation (path_cogMag default_paths) = None
 \<and> readAngleDeg true_cog_and_variation (path_cogTrue default_paths) = Some 90
 \<and> readAngleDeg true_cog_and_variation (path_variation default_paths) = Some 5
 \<and> cogMagDeg (best (computeStatus true_cog_and_variation 0 default_paths 5)) = Some 85
 \<and> cogMagSource (best (computeStatus true_cog_and_variation 0 default_paths 5)) =
     Some ''navigation.courseOverGroundTrue + variation''"
proof -
  have h: "readAngleDeg true_cog_and_variation (path_cogMag default_paths) = None
     \<and> readAngleDeg true_cog_and_variation (path_cogTrue default_paths) = Some 90
     \<and> readAngleDeg true_cog_and_variation (path_variation default_paths) = Some 5"
    by (simp add: default_paths_def true_cog_and_variation_angles)
  with cogMag_fallback_order
         [where app = true_cog_and_variation and P = default_paths and now = 0 and stale = 5]
  have "cogMagDeg (best (computeStatus true_cog_and_variation 0 default_paths 5)) = Some 85 \<and>
        cogMagSource (best (computeStatus true_cog_and_variation 0 default_paths 5)) =
          Some (path_cogTrue default_paths @ '' + variation'')"
    by (elim conjE impE) (intro conjI; assumption)+
  with h show ?thesis by (simp add: default_paths_def)
qed

section \<open>Bounds of \<open>pi\<close>\<close>

lemma sum_less_15:
  "(\<Sum>m<15. f m) =
     (f 0 + f 1 + f 2 + f 3 + f 4 + f 5 + f 6 + f 7 + f 8 + f 9 + f 10 + f 11 + f 12 + f 13
      + f (14::nat) :: real)"
  by (simp add: lessThan_nat_numeral lessThan_Suc)

lemma sin_coeffs:
  "sin_coeff 0 = 0" "sin_coeff 1 = 1" "sin_coeff 2 = 0" "sin_coeff 3 = - 1 / 6"
  "sin_coeff 4 = 0" "sin_coeff 5 = 1 / 120" "sin_coeff 6 = 0" "sin_coeff 7 = - 1 / 5040"
  "sin_coeff 8 = 0" "sin_coeff 9 = 1 / 362880" "sin_coeff 10 = 0"
  "sin_coeff 11 = - 1 / 39916800" "sin_coeff 12 = 0" "sin_coeff 13 = 1 / 6227020800"
  "sin_coeff 14 = 0"
  by (simp_all add: sin_coeff_def fact_numeral)

lemma sin_series_below_pi:
  "inverse (fact 15) * \<bar>157 / 50 :: real\<bar> ^ 15 < (\<Sum>m<15. sin_coeff m * (157 / 50) ^ m)"
  unfolding sum_less_15 sin_coeffs by (simp add: fact_numeral power_divide)

lemma sin_series_above_pi:
  "(\<Sum>m<15. sin_coeff m * (22 / 7) ^ m) + inverse (fact 15) * \<bar>22 / 7 :: real\<bar> ^ 15 < 0"
  unfolding sum_less_15 sin_coeffs by (simp add: fact_numeral power_divide)

lemma pi_bounds: "157 / 50 < pi \<and> pi < 22 / 7"
proof
  have "\<bar>sin (157 / 50) - (\<Sum>m<15. sin_coeff m * (157 / 50) ^ m)\<bar>
          \<le> inverse (fact 15) * \<bar>157 / 50 :: real\<bar> ^ 15"
    by (rule Maclaurin_sin_bound)
  with sin_series_below_pi have "0 < sin (157 / 50 :: real)" by linarith
  moreover have "(157 / 50 :: real) < 2 * pi" using pi_ge_two by simp
  ultimately show "157 / 50 < pi"
    using sin_le_zero [of "157 / 50"] by (cases "pi \<le> 157 / 50") auto
next
  have "\<bar>sin (22 / 7) - (\<Sum>m<15. sin_coeff m * (22 / 7) ^ m)\<bar>
          \<le> inverse (fact 15) * \<bar>22 / 7 :: real\<bar> ^ 15"
    by (rule Maclaurin_sin_bound)
  with sin_series_above_pi have "sin (22 / 7 :: real) < 0" by linarith
  then show "pi < 22 / 7"
    using sin_ge_zero [of "22 / 7"] by (cases "22 / 7 \<le> pi") auto
qed

lemma js_rem_small: "0 \<le> a \<Longrightarrow> a < 360 \<Longrightarrow> js_rem a 360 = a"
proof -
  assume a: "0 \<le> a" "a < 360"
  then have "\<lfloor>a / 360\<rfloor> = 0" by (simp add: floor_eq_iff)
  with a show ?thesis by (simp add: js_rem_def js_trunc_def)
qed

text \<open>One radian is 57.3 degrees, to the tenth.\<close>

lemma wrap360_one_radian: "wrap360 (radToDeg 1) = 573 / 10"
proof -
  have lo: "5727 / 10 < 1800 / pi"
  proof -
    have "5727 / 10 * pi < 1800" using pi_bounds by simp
    then show ?thesis using pi_gt_zero by (simp add: pos_less_divide_eq)
  qed
  have hi: "1800 / pi < 5733 / 10"
  proof -
    have "1800 < 5733 / 10 * pi" using pi_bounds by simp
    then show ?thesis using pi_gt_zero by (simp add: pos_divide_less_eq)
  qed
  have "0 \<le> 180 / pi" by simp
  moreover have "180 / pi < 360" using hi by simp
  ultimately have d: "js_rem (180 / pi) 360 = 180 / pi" by (rule js_rem_small)
  have "\<lfloor>180 / pi * 10 + 1 / 2\<rfloor> = 573"
    using lo hi by (simp add: floor_eq_iff)
  then have "Math_round (180 / pi * 10) = 573" by (simp add: Math_round_def)
  with d show ?thesis by (simp add: wrap360_def radToDeg_def Let_def)
qed

section \<open>Radians or degrees\<close>

lemma heading_reading_value:
  "getValue (heading_reading x) ''navigation.headingMagnetic'' = Some (Scalar (Finite x))"
  by (simp add: getValue_def heading_reading_def)

lemma readAngleDeg_heading_reading:
  "readAngleDeg (heading_reading x) ''navigation.headingMagnetic'' =
     Some (wrap360 (if \<bar>x\<bar> \<le> 2 * pi + 1 / 2 then x * 180 / pi else x))"
  using readAngleDeg_Scalar [OF heading_reading_value, of x]
  by (simp add: radToDeg_def mult.commute)

text \<open>
  The heading of index.js goes through radians; over the reals it is the same angle.
\<close>

lemma getHeadingMagDeg_readAngleDeg: "getHeadingMagDeg app path = readAngleDeg app path"
  by (simp add: getHeadingMagDeg_def getAngleRad_def readAngleDeg_def radToDeg_def degToRad_def
        Let_def split: option.splits jsnumber.splits)

lemma heading_reading_360:
  "readAngleDeg (heading_reading (11519 / 32)) ''navigation.headingMagnetic'' = Some 360"
  using readAngleDeg_degrees [OF heading_reading_value, of "11519 / 32"]
  by (simp add: wrap360_eval)

lemma heading_reading_others:
  "path \<noteq> ''navigation.headingMagnetic'' \<Longrightarrow> readAngleDeg (heading_reading x) path = None"
  by (simp add: readAngleDeg_absent heading_reading_def)

lemma heading_reading_best:
  "headingMagDeg (best (computeStatus (heading_reading x) now default_paths stale)) =
     readAngleDeg (heading_reading x) ''navigation.headingMagnetic''"
  by (simp add: computeStatus_def default_paths_def heading_reading_others Let_def)

text \<open>
  Claim C3. \<open>readAngleDeg\<close> takes a finite reading as radians exactly when its absolute
  value is at most \<open>2 * pi + 0.5\<close> and as degrees otherwise, and passes the degrees to
  \<open>wrap360\<close>; the reading 1.0 gives 57.3 and the reading 57.3 gives 57.3. The result is
  not always below 360: the reading 359.96875, written 11519 / 32, gives 360.
\<close>

theorem readAngleDeg_threshold_and_360:
  "readAngleDeg (heading_reading r) ''navigation.headingMagnetic'' =
     Some (wrap360 (if \<bar>r\<bar> \<le> 2 * pi + 1 / 2 then r * 180 / pi else r))
 \<and> getHeadingMagDeg (heading_reading r) ''navigation.headingMagnetic'' =
     Some (wrap360 (if \<bar>r\<bar> \<le> 2 * pi + 1 / 2 then r * 180 / pi else r))
 \<and> readAngleDeg (heading_reading 1) ''navigation.headingMagnetic'' = Some (573 / 10)
 \<and> readAngleDeg (heading_reading (573 / 10)) ''navigation.headingMagnetic'' = Some (573 / 10)
 \<and> readAngleDeg (heading_reading (11519 / 32)) ''navigation.headingMagnetic'' = Some 360"
proof -
  have one: "readAngleDeg (heading_reading 1) ''navigation.headingMagnetic'' = Some (573 / 10)"
    using readAngleDeg_radians [OF heading_reading_value, of 1]
    by (simp add: wrap360_one_radian)
  have deg: "readAngleDeg (heading_reading (573 / 10)) ''navigation.headingMagnetic''
               = Some (573 / 10)"
    using readAngleDeg_degrees [OF heading_reading_value, of "573 / 10"]
    by (simp add: wrap360_eval)
  show ?thesis
    by (simp only: getHeadingMagDeg_readAngleDeg readAngleDeg_heading_reading [of r]
          one deg heading_reading_360 simp_thms)
qed

section \<open>The range of \<open>wrap360\<close>\<close>

text \<open>
  Claim C5. \<open>wrap360\<close> rounds after it wraps, so an angle from 359.95 up to 360 becomes
  360, as 359.96875 (written 11519 / 32) does: the result is not always below 360, and
  wrapping it again gives 0, not the same value. The angle fields of the fused status take
  such a value over unchanged.
\<close>

theorem wrap360_reaches_360:
  "wrap360 (11519 / 32) = 360
 \<and> wrap360 (wrap360 (11519 / 32)) = 0
 \<and> wrap360 (wrap360 (11519 / 32)) \<noteq> wrap360 (11519 / 32)
 \<and> headingMagDeg (best (computeStatus (heading_reading (11519 / 32)) now default_paths stale))
     = Some 360"
  by (simp add: wrap360_eval heading_reading_best heading_reading_360)

section \<open>Talker sanitization\<close>

lemma is_AZ09_II: "list_all is_AZ09 (lit ''II'')"
  by (simp add: is_AZ09_def lit_def)

text \<open>
  Claim C10. For every input, absent or any string, and whatever the case mapping of the
  engine does to it, \<open>sanitizeTalker\<close> returns exactly two code units of \<open>A-Z0-9\<close>: the
  input (or \<open>II\<close> for a falsy one) is upper-cased and stripped of every other code unit;
  more than two remaining code units are cut to the first two, fewer than two are replaced
  by \<open>II\<close>.
\<close>

theorem sanitizeTalker_two_upper_alnum:
  "length (sanitizeTalker toUpperCase t) = 2
 \<and> list_all is_AZ09 (sanitizeTalker toUpperCase t)
 \<and> sanitizeTalker toUpperCase t =
     (let up = filter is_AZ09
                 (toUpperCase
                    (case t of None \<Rightarrow> lit ''II'' | Some s \<Rightarrow> if s = [] then lit ''II'' else s))
      in if 2 < length up then take 2 up
         else if length up < 2 then lit ''II''
         else up)"
proof -
  define up where
    "up = filter is_AZ09
            (toUpperCase
               (case t of None \<Rightarrow> lit ''II'' | Some s \<Rightarrow> if s = [] then lit ''II'' else s))"
  have s: "sanitizeTalker toUpperCase t = (if length up \<ge> 2 then take 2 up else lit ''II'')"
    by (simp add: sanitizeTalker_def up_def Let_def)
  have l: "length (lit ''II'') = 2" by (simp add: lit_def)
  have a: "list_all is_AZ09 up" by (simp add: up_def list_all_iff)
  then have "list_all is_AZ09 (take 2 up)"
    by (auto simp add: list_all_iff dest: in_set_takeD)
  with s is_AZ09_II have "list_all is_AZ09 (sanitizeTalker toUpperCase t)" by simp
  moreover from s l have "length (sanitizeTalker toUpperCase t) = 2" by simp
  moreover from s have "sanitizeTalker toUpperCase t =
      (if 2 < length up then take 2 up else if length up < 2 then lit ''II'' else up)"
    by simp
  ultimately show ?thesis by (simp add: up_def Let_def)
qed

theorem sanitizeTalker_two_upper_alnum_witness:
  "sanitizeTalker toUpperCase_ascii (Some (lit ''g-p-s'')) = lit ''GP''
 \<and> sanitizeTalker toUpperCase_ascii (Some (lit ''ec'')) = lit ''EC''
 \<and> sanitizeTalker toUpperCase_ascii (Some (lit ''x'')) = lit ''II''
 \<and> sanitizeTalker toUpperCase_ascii None = lit ''II''
 \<and> sanitizeTalker toUpperCase_sharp_s (Some [223]) = lit ''SS''
 \<and> sanitizeTalker toUpperCase_sharp_s (Some [97, 223]) = lit ''AS''
 \<and> length (sanitizeTalker toUpperCase_sharp_s (Some [97, 223])) = 2
 \<and> list_all is_AZ09 (sanitizeTalker toUpperCase_sharp_s (Some [97, 223]))"
proof -
  have e: "sanitizeTalker toUpperCase_ascii (Some (lit ''g-p-s'')) = lit ''GP''"
    "sanitizeTalker toUpperCase_ascii (Some (lit ''ec'')) = lit ''EC''"
    "sanitizeTalker toUpperCase_ascii (Some (lit ''x'')) = lit ''II''"
    "sanitizeTalker toUpperCase_ascii None = lit ''II''"
    by (simp_all add: sanitizeTalker_def toUpperCase_ascii_def toUpperCase_ascii_unit_def
          is_AZ09_def lit_def Let_def)
  have f: "sanitizeTalker toUpperCase_sharp_s (Some [223]) = lit ''SS''"
    "sanitizeTalker toUpperCase_sharp_s (Some [97, 223]) = lit ''AS''"
    by (simp_all add: sanitizeTalker_def toUpperCase_sharp_s_def toUpperCase_ascii_unit_def
          is_AZ09_def lit_def Let_def)
  note t = sanitizeTalker_two_upper_alnum [of toUpperCase_sharp_s "Some [97, 223]"]
  from t have l: "length (sanitizeTalker toUpperCase_sharp_s (Some [97, 223])) = 2"
    by (rule conjunct1)
  from t have a: "list_all is_AZ09 (sanitizeTalker toUpperCase_sharp_s (Some [97, 223]))"
    by (rule conjunct2 [THEN conjunct1])
  from e f l a show ?thesis by (simp only: simp_thms)
qed

section \<open>The checksum and the BOD sentence\<close>

lemma checksum_loop_fold:
  "checksum_loop s i c = fold (\<lambda>u c. c XOR u) (drop i s) c"
proof (induction s i c rule: checksum_loop.induct)
  case (1 sentence i c)
  show ?case
  proof (cases "i < length sentence")
    case True
    then have d: "drop i sentence = sentence ! i # drop (i + 1) sentence"
      by (simp add: Cons_nth_drop_Suc)
    from True 1 show ?thesis
      by (subst checksum_loop.simps) (simp add: d charCodeAt_def)
  next
    case False
    then show ?thesis by (subst checksum_loop.simps) simp
  qed
qed

lemma checksum_loop_body: "checksum_loop (u # body) (Suc 0) 0 = xor_units body"
  by (simp add: checksum_loop_fold xor_units_def)

lemma less_16_cases:
  "d < 16 \<Longrightarrow> d = 0 \<or> d = 1 \<or> d = 2 \<or> d = 3 \<or> d = 4 \<or> d = 5 \<or> d = 6 \<or> d = 7
     \<or> d = 8 \<or> d = 9 \<or> d = 10 \<or> d = 11 \<or> d = 12 \<or> d = 13 \<or> d = 14 \<or> d = (15::nat)"
  by arith

lemma toUpperCase_digit: "d < 16 \<Longrightarrow> toUpperCase_ascii_unit (digit_char d) = hex_upper d"
  by (drule less_16_cases, elim disjE)
     (simp_all add: toUpperCase_ascii_unit_def digit_char_def hex_upper_def lit_def)

lemma hex_upper_is_upper_hex: "d < 16 \<Longrightarrow> is_upper_hex (hex_upper d)"
  by (drule less_16_cases, elim disjE) (simp_all add: is_upper_hex_def hex_upper_def lit_def)

lemma hex_digit_value_hex_upper: "d < 16 \<Longrightarrow> hex_digit_value (hex_upper d) = d"
  by (drule less_16_cases, elim disjE) (simp_all add: hex_digit_value_def hex_upper_def lit_def)

text \<open>\<open>toString(16)\<close> followed by \<open>toUpperCase\<close> is the upper-case hexadecimal numeral.\<close>

lemma toUpperCase_toString_16: "toUpperCase_ascii (toString_radix 16 n) = upper_hex n"
proof (induction n rule: upper_hex.induct)
  case (1 n)
  show ?case
  proof (cases "n < 16")
    case True
    then show ?thesis
      by (simp add: toString_radix.simps [of 16 n] upper_hex.simps [of n]
            toUpperCase_ascii_def toUpperCase_digit)
  next
    case False
    with 1 have "toUpperCase_ascii (toString_radix 16 (n div 16)) = upper_hex (n div 16)"
      by simp
    with False show ?thesis
      by (simp add: toString_radix.simps [of 16 n] upper_hex.simps [of n]
            toUpperCase_ascii_def toUpperCase_digit)
  qed
qed

lemma length_upper_hex: "1 \<le> length (upper_hex n)"
  by (simp add: upper_hex.simps [of n])

lemma padStart_upper_hex: "padStart 2 48 (upper_hex n) = checksum_text n"
proof (cases "n < 16")
  case True
  then show ?thesis by (simp add: padStart_def checksum_text_def upper_hex.simps [of n] lit_def)
next
  case False
  have "1 \<le> length (upper_hex (n div 16))" by (rule length_upper_hex)
  with False have "2 \<le> length (upper_hex n)" by (simp add: upper_hex.simps [of n])
  with False show ?thesis by (simp add: padStart_def checksum_text_def)
qed

lemma upper_hex_digits: "list_all is_upper_hex (upper_hex n)"
proof (induction n rule: upper_hex.induct)
  case (1 n)
  show ?case
  proof (cases "n < 16")
    case True
    then show ?thesis by (simp add: upper_hex.simps [of n] hex_upper_is_upper_hex)
  next
    case False
    with 1 have "list_all is_upper_hex (upper_hex (n div 16))" by simp
    with False show ?thesis by (simp add: upper_hex.simps [of n] hex_upper_is_upper_hex)
  qed
qed

lemma hex_value_snoc: "hex_value (s @ [u]) = 16 * hex_value s + hex_digit_value u"
  by (simp add: hex_value_def)

lemma hex_value_upper_hex: "hex_value (upper_hex n) = n"
proof (induction n rule: upper_hex.induct)
  case (1 n)
  show ?case
  proof (cases "n < 16")
    case True
    then show ?thesis
      by (simp add: upper_hex.simps [of n] hex_value_def hex_digit_value_hex_upper)
  next
    case False
    with 1 have "hex_value (upper_hex (n div 16)) = n div 16" by simp
    with False show ?thesis
      by (simp add: upper_hex.simps [of n] hex_value_snoc hex_digit_value_hex_upper)
  qed
qed

lemma checksum_text_properties:
  "2 \<le> length (checksum_text x) \<and> list_all is_upper_hex (checksum_text x)
   \<and> hex_value (checksum_text x) = x"
proof (cases "x < 16")
  case True
  have z: "is_upper_hex 48" by (simp add: is_upper_hex_def lit_def)
  have "hex_value (48 # upper_hex x) = hex_value (upper_hex x)"
    by (simp add: hex_value_def hex_digit_value_def)
  with True z length_upper_hex [of x] upper_hex_digits [of x] show ?thesis
    by (simp add: checksum_text_def lit_def hex_value_upper_hex)
next
  case False
  have "1 \<le> length (upper_hex (n div 16))" for n by (rule length_upper_hex)
  with False have "2 \<le> length (upper_hex x)" by (simp add: upper_hex.simps [of x])
  with False upper_hex_digits [of x] show ?thesis
    by (simp add: checksum_text_def hex_value_upper_hex)
qed

lemma checksum_text_byte: "x < 256 \<Longrightarrow> checksum_text x = hex2 x"
proof (cases "x < 16")
  case True
  then show ?thesis
    by (simp add: checksum_text_def hex2_def upper_hex.simps [of x] lit_def hex_upper_def)
next
  case False
  assume "x < 256"
  then have "x div 16 < 16" by simp
  then have "upper_hex (x div 16) = [hex_upper (x div 16)]"
    by (simp add: upper_hex.simps [of "x div 16"])
  with False show ?thesis by (simp add: checksum_text_def hex2_def upper_hex.simps [of x])
qed

lemma addChecksum_body:
  "addChecksum (u # body) =
     u # body @ lit ''*'' @ checksum_text (xor_units body) @ lit [CHR 0x0D, CHR 0x0A]"
  by (simp add: addChecksum_def Let_def checksum_loop_body toUpperCase_toString_16
        padStart_upper_hex)

lemma buildBOD_body:
  "buildBOD tk trueDeg magDeg dest orig =
     addChecksum (lit ''$'' @ BOD_body tk trueDeg magDeg dest orig)"
  by (simp add: buildBOD_def BOD_body_def angle_field_def Let_def split: option.splits)

lemma buildBOD_checksum:
  "buildBOD tk trueDeg magDeg dest orig =
     lit ''$'' @ BOD_body tk trueDeg magDeg dest orig @ lit ''*''
     @ checksum_text (xor_units (BOD_body tk trueDeg magDeg dest orig))
     @ lit [CHR 0x0D, CHR 0x0A]"
  unfolding buildBOD_body by (simp add: lit_def addChecksum_body [unfolded lit_def])

text \<open>The xor of code units below 256 is below 256.\<close>

lemma xor_less_256: "a < 256 \<Longrightarrow> b < 256 \<Longrightarrow> a XOR b < (256 :: nat)"
proof -
  assume ab: "a < 256" "b < 256"
  have "a XOR b < 2 ^ 8"
    unfolding take_bit_nat_eq_self_iff [symmetric] take_bit_xor
    using ab by (simp add: take_bit_nat_eq_self)
  then show ?thesis by simp
qed

lemma fold_xor_less:
  "c < 256 \<Longrightarrow> list_all (\<lambda>u. u < 256) s \<Longrightarrow> fold (\<lambda>u c. c XOR u) s c < (256 :: nat)"
  by (induction s arbitrary: c) (simp_all add: xor_less_256)

lemma xor_units_less: "list_all (\<lambda>u. u < 256) s \<Longrightarrow> xor_units s < 256"
  by (simp add: xor_units_def fold_xor_less)

lemma lit_less: "list_all (\<lambda>u. u < 256) (lit s)"
proof -
  have "(of_char c :: nat) < 256" for c
  proof -
    have "(of_char c :: nat) mod 256 < 256" by simp
    then show ?thesis by simp
  qed
  then show ?thesis by (simp add: lit_def list_all_iff)
qed

lemma toString_10_less: "list_all (\<lambda>u. u < 256) (toString_radix 10 n)"
proof (induction n rule: less_induct)
  case (less n)
  show ?case
  proof (cases "n < 10")
    case True
    then show ?thesis by (simp add: toString_radix.simps [of 10 n] digit_char_def)
  next
    case False
    then have "n div 10 < n" by simp
    then have "list_all (\<lambda>u. u < 256) (toString_radix 10 (n div 10))" by (rule less.IH)
    moreover have "digit_char (n mod 10) < 256" by (simp add: digit_char_def)
    ultimately show ?thesis using False by (simp add: toString_radix.simps [of 10 n])
  qed
qed

lemma take_drop_less:
  "list_all (\<lambda>u. u < (256 :: nat)) xs \<Longrightarrow>
   list_all (\<lambda>u. u < 256) (take k xs) \<and> list_all (\<lambda>u. u < 256) (drop k xs)"
  by (auto simp add: list_all_iff dest: in_set_takeD in_set_dropD)

lemma toFixed_less: "list_all (\<lambda>u. u < 256) (toFixed f x)"
proof -
  define n where "n = nat \<lfloor>(if x < 0 then - x else x) * 10 ^ f + 1 / 2\<rfloor>"
  define m where "m = (if n = 0 then lit ''0'' else toString_radix 10 n)"
  define m1 where
    "m1 = (if length m \<le> f then replicate (f + 1 - length m) (of_char (CHR ''0'')) @ m else m)"
  define k where "k = (if length m \<le> f then f + 1 else length m)"
  define s where "s = (if x < 0 then lit ''-'' else [])"
  have e: "toFixed f x = s @ (if f \<noteq> 0 then take (k - f) m1 @ lit ''.'' @ drop (k - f) m1 else m)"
    unfolding toFixed_def Let_def n_def m_def m1_def k_def s_def ..
  have ls: "list_all (\<lambda>u. u < 256) s"
    unfolding s_def using lit_less [of "''-''"] by (cases "x < 0") simp_all
  have lm: "list_all (\<lambda>u. u < 256) m"
    unfolding m_def using lit_less [of "''0''"] toString_10_less [of n] by (cases "n = 0") simp_all
  have z: "(of_char (CHR ''0'') :: nat) < 256" by simp
  have "list_all (\<lambda>u. u < 256) (replicate j (of_char (CHR ''0'') :: nat))" for j
    unfolding list_all_iff using z by (auto simp del: of_char_eq_iff)
  with lm have lm1: "list_all (\<lambda>u. u < 256) m1"
    unfolding m1_def by (cases "length m \<le> f") simp_all
  from take_drop_less [OF lm1, of "k - f"] lit_less [of "''.''"]
  have "list_all (\<lambda>u. u < 256) (take (k - f) m1 @ lit ''.'' @ drop (k - f) m1)"
    by simp
  with ls lm show ?thesis unfolding e by (cases "f = 0") simp_all
qed

lemma fmtDeg_less: "list_all (\<lambda>u. u < 256) (fmtDeg d)"
proof -
  have "list_all (\<lambda>u. u < 256) (replicate j (of_char (CHR ''0'') :: nat))" for j
    unfolding list_all_iff by auto
  with toFixed_less [of 1 "wrap360 d"] show ?thesis
    unfolding fmtDeg_def padStart_def by simp
qed

lemma angle_field_less: "list_all (\<lambda>u. u < 256) (angle_field a)"
  by (cases a) (simp_all add: angle_field_def fmtDeg_less)

lemma BOD_body_less:
  assumes "list_all (\<lambda>u. u < 256) (tk @ or_empty dest @ or_empty orig)"
  shows "list_all (\<lambda>u. u < 256) (BOD_body tk trueDeg magDeg dest orig)"
proof -
  from assms have "list_all (\<lambda>u. u < 256) tk" "list_all (\<lambda>u. u < 256) (or_empty dest)"
    "list_all (\<lambda>u. u < 256) (or_empty orig)" by simp_all
  with lit_less [of "''BOD,''"] lit_less [of "'',T,''"] lit_less [of "'',M,''"] lit_less [of "'',''"]
    angle_field_less [of trueDeg] angle_field_less [of magDeg]
  show ?thesis unfolding BOD_body_def by simp
qed

lemma length_fmtDeg: "5 \<le> length (fmtDeg d)"
  by (simp add: fmtDeg_def padStart_def)

text \<open>
  Claim C9, as stated, fails on a code unit of 256 or more: with the destination U+0100
  the checksum has three digits, and the sentence is one code unit longer than a sentence
  with a checksum of two digits.
\<close>

theorem buildBOD_two_digits_counterexample:
  "buildBOD (lit ''II'') None None (Some [256]) None =
     lit ''$IIBOD,,T,,M,'' @ [256] @ lit '',*150'' @ lit [CHR 0x0D, CHR 0x0A]
 \<and> length (buildBOD (lit ''II'') None None (Some [256]) None) \<noteq>
     1 + length (BOD_body (lit ''II'') None None (Some [256]) None) + 1 + 2 + 2"
proof -
  have b: "BOD_body (lit ''II'') None None (Some [256]) None = lit ''IIBOD,,T,,M,'' @ [256] @ lit '',''"
    by (simp add: BOD_body_def angle_field_def or_empty_def lit_def)
  have x: "xor_units (lit ''IIBOD,,T,,M,'' @ [256] @ lit '','') = 336"
    by code_simp
  have c: "checksum_text 336 = lit ''150''"
    by code_simp
  show ?thesis
    unfolding buildBOD_checksum b x c by (simp add: lit_def)
qed

text \<open>
  Claim C9, amended. \<open>buildBOD\<close> produces the body \<open><talker>BOD,<true>,T,<mag>,M,<dest>,<orig>\<close>,
  in which an absent angle is the empty field and a present one is never empty, then
  prefixes \<open>$\<close> and appends \<open>*\<close>, the xor of all code units of the body as an upper-case
  hexadecimal numeral of at least two digits, carriage return and line feed. The numeral
  has exactly two digits when every code unit of the talker, the destination and the origin
  is below 256, as in every ASCII string.
\<close>

theorem buildBOD_sentence:
  "buildBOD tk trueDeg magDeg dest orig =
     lit ''$'' @ BOD_body tk trueDeg magDeg dest orig @ lit ''*''
     @ checksum_text (xor_units (BOD_body tk trueDeg magDeg dest orig))
     @ lit [CHR 0x0D, CHR 0x0A]
 \<and> BOD_body tk trueDeg magDeg dest orig =
     tk @ lit ''BOD,'' @ (case trueDeg of None \<Rightarrow> [] | Some d \<Rightarrow> fmtDeg d) @ lit '',T,''
     @ (case magDeg of None \<Rightarrow> [] | Some d \<Rightarrow> fmtDeg d) @ lit '',M,''
     @ (case dest of None \<Rightarrow> [] | Some x \<Rightarrow> x) @ lit '',''
     @ (case orig of None \<Rightarrow> [] | Some x \<Rightarrow> x)
 \<and> fmtDeg d \<noteq> []
 \<and> 2 \<le> length (checksum_text x)
 \<and> list_all is_upper_hex (checksum_text x)
 \<and> hex_value (checksum_text x) = x
 \<and> (list_all (\<lambda>u. u < 256) (tk @ or_empty dest @ or_empty orig) \<longrightarrow>
      xor_units (BOD_body tk trueDeg magDeg dest orig) < 256
      \<and> checksum_text (xor_units (BOD_body tk trueDeg magDeg dest orig)) =
          hex2 (xor_units (BOD_body tk trueDeg magDeg dest orig))
      \<and> length (hex2 (xor_units (BOD_body tk trueDeg magDeg dest orig))) = 2)"
proof -
  have "fmtDeg d \<noteq> []" using length_fmtDeg [of d] by auto
  moreover have "BOD_body tk trueDeg magDeg dest orig =
     tk @ lit ''BOD,'' @ (case trueDeg of None \<Rightarrow> [] | Some d \<Rightarrow> fmtDeg d) @ lit '',T,''
     @ (case magDeg of None \<Rightarrow> [] | Some d \<Rightarrow> fmtDeg d) @ lit '',M,''
     @ (case dest of None \<Rightarrow> [] | Some x \<Rightarrow> x) @ lit '',''
     @ (case orig of None \<Rightarrow> [] | Some x \<Rightarrow> x)"
    by (simp add: BOD_body_def angle_field_def or_empty_def)
  moreover have "xor_units (BOD_body tk trueDeg magDeg dest orig) < 256
      \<and> checksum_text (xor_units (BOD_body tk trueDeg magDeg dest orig)) =
          hex2 (xor_units (BOD_body tk trueDeg magDeg dest orig))
      \<and> length (hex2 (xor_units (BOD_body tk trueDeg magDeg dest orig))) = 2"
    if "list_all (\<lambda>u. u < 256) (tk @ or_empty dest @ or_empty orig)"
  proof -
    from that have "xor_units (BOD_body tk trueDeg magDeg dest orig) < 256"
      by (intro xor_units_less BOD_body_less)
    then show ?thesis by (simp add: checksum_text_byte hex2_def)
  qed
  ultimately show ?thesis
    using buildBOD_checksum [of tk trueDeg magDeg dest orig] checksum_text_properties [of x]
    by blast
qed

theorem buildBOD_sentence_witness:
  "list_all (\<lambda>u. u < 256) (lit ''GP'' @ or_empty (Some (lit ''DEST'')) @ or_empty (Some (lit ''ORIG'')))
 \<and> buildBOD (lit ''GP'') (Some (417 / 5)) (Some 90) (Some (lit ''DEST'')) (Some (lit ''ORIG'')) =
     lit ''$GPBOD,083.4,T,090.0,M,DEST,ORIG*54'' @ lit [CHR 0x0D, CHR 0x0A]
 \<and> list_all (\<lambda>u. u < 256) (lit ''II'' @ or_empty (Some (lit ''DEST'')) @ or_empty None)
 \<and> buildBOD (lit ''II'') None None (Some (lit ''DEST'')) None =
     lit ''$IIBOD,,T,,M,DEST,*56'' @ lit [CHR 0x0D, CHR 0x0A]"
proof -
  have h1: "list_all (\<lambda>u. u < 256)
              (lit ''GP'' @ or_empty (Some (lit ''DEST'')) @ or_empty (Some (lit ''ORIG'')))"
    by (simp add: or_empty_def lit_def)
  have h2: "list_all (\<lambda>u. u < 256) (lit ''II'' @ or_empty (Some (lit ''DEST'')) @ or_empty None)"
    by (simp add: or_empty_def lit_def)
  have f: "fmtDeg (417 / 5) = lit ''083.4''" "fmtDeg 90 = lit ''090.0''"
    by (simp_all add: fmtDeg_def padStart_def wrap360_def js_rem_def js_trunc_def Math_round_def
          toFixed_def Let_def toString_radix.simps digit_char_def lit_def)
  have b1: "BOD_body (lit ''GP'') (Some (417 / 5)) (Some 90) (Some (lit ''DEST'')) (Some (lit ''ORIG''))
              = lit ''GPBOD,083.4,T,090.0,M,DEST,ORIG''"
    by (simp add: BOD_body_def angle_field_def or_empty_def f) (simp add: lit_def)
  have b2: "BOD_body (lit ''II'') None None (Some (lit ''DEST'')) None = lit ''IIBOD,,T,,M,DEST,''"
    by (simp add: BOD_body_def angle_field_def or_empty_def lit_def)
  have x: "hex2 (xor_units (lit ''GPBOD,083.4,T,090.0,M,DEST,ORIG'')) = lit ''54''"
    "hex2 (xor_units (lit ''IIBOD,,T,,M,DEST,'')) = lit ''56''"
    by code_simp+
  note t1 = buildBOD_sentence
         [where tk = "lit ''GP''" and trueDeg = "Some (417 / 5)" and magDeg = "Some 90"
            and dest = "Some (lit ''DEST'')" and orig = "Some (lit ''ORIG'')" and d = 0 and x = 0,
          unfolded b1 x]
  note c1 = t1 [THEN conjunct2, THEN conjunct2, THEN conjunct2, THEN conjunct2, THEN conjunct2,
                THEN conjunct2, THEN mp, OF h1, THEN conjunct2, THEN conjunct1]
  have s1: "buildBOD (lit ''GP'') (Some (417 / 5)) (Some 90) (Some (lit ''DEST'')) (Some (lit ''ORIG''))
     = lit ''$'' @ lit ''GPBOD,083.4,T,090.0,M,DEST,ORIG'' @ lit ''*'' @ lit ''54''
       @ lit [CHR 0x0D, CHR 0x0A]"
    using t1 [THEN conjunct1] unfolding c1 .
  note t2 = buildBOD_sentence
         [where tk = "lit ''II''" and trueDeg = None and magDeg = None
            and dest = "Some (lit ''DEST'')" and orig = None and d = 0 and x = 0,
          unfolded b2 x]
  note c2 = t2 [THEN conjunct2, THEN conjunct2, THEN conjunct2, THEN conjunct2, THEN conjunct2,
                THEN conjunct2, THEN mp, OF h2, THEN conjunct2, THEN conjunct1]
  have s2: "buildBOD (lit ''II'') None None (Some (lit ''DEST'')) None
     = lit ''$'' @ lit ''IIBOD,,T,,M,DEST,'' @ lit ''*'' @ lit ''56'' @ lit [CHR 0x0D, CHR 0x0A]"
    using t2 [THEN conjunct1] unfolding c2 .
  from h1 h2 s1 s2 show ?thesis by (simp add: lit_def)
qed

end
